theory Spec2Isabelle
  imports Main "HOL-Library.Log_Nat"
begin

section \<open>Arbitrary-precision integers (math/big)\<close>

text \<open>
  A \<^verbatim>\<open>*big.Int\<close> is an \<^typ>\<open>int\<close>; a pointer that may be nil is an
  \<^typ>\<open>int option\<close>, with \<^term>\<open>None\<close> for nil.
\<close>

text \<open>
  \<^verbatim>\<open>x.Cmp(y)\<close> is -1, 0 or 1.
\<close>

definition Cmp :: "int \<Rightarrow> int \<Rightarrow> int" where
  "Cmp x y = (if x < y then - 1 else if x = y then 0 else 1)"

text \<open>
  \<^verbatim>\<open>ModInverse(g, n)\<close> on a positive modulus \<open>n\<close>: the inverse of \<open>g\<close> in the ring of
  integers modulo \<open>n\<close>, in \<open>[0, n)\<close>, and nil when \<open>g\<close> and \<open>n\<close> are not relatively
  prime. The inverse is read off the Bezout coefficients of the extended Euclidean
  algorithm.
\<close>

definition ModInverse :: "int \<Rightarrow> int \<Rightarrow> int option" where
  "ModInverse g n =
     (if gcd g n = 1
      then Some (fst (bezw (nat (g mod n)) (nat n)) mod n)
      else None)"

text \<open>
  \<^verbatim>\<open>Exp(x, y, m)\<close> on a positive modulus \<open>m\<close>: \<open>x ^ y mod m\<close>; for a negative \<open>y\<close> the
  inverse of \<open>x\<close> modulo \<open>m\<close> is raised to \<open>- y\<close>, and the result is nil when \<open>x\<close> has
  no inverse.
\<close>

definition ExpMod :: "int \<Rightarrow> int \<Rightarrow> int \<Rightarrow> int option" where
  "ExpMod x y m =
     (if 0 \<le> y then Some (x ^ nat y mod m)
      else (case ModInverse x m of
              None \<Rightarrow> None
            | Some xi \<Rightarrow> Some (xi ^ nat (- y) mod m)))"

text \<open>
  \<^verbatim>\<open>Exp(x, y, nil)\<close>: \<open>x ^ y\<close>, and 1 when \<open>y \<le> 0\<close>.
\<close>

definition ExpNil :: "int \<Rightarrow> int \<Rightarrow> int" where
  "ExpNil x y = (if y \<le> 0 then 1 else x ^ nat y)"

text \<open>
  \<^verbatim>\<open>Mod\<close> and \<^verbatim>\<open>Div\<close> are Euclidean: the remainder lies in \<open>[0, |m|)\<close>. Both panic
  on a zero divisor, which is \<^term>\<open>None\<close> here.
\<close>

definition EuclidMod :: "int \<Rightarrow> int \<Rightarrow> int option" where
  "EuclidMod x m = (if m = 0 then None else Some (x mod \<bar>m\<bar>))"

definition EuclidDiv :: "int \<Rightarrow> int \<Rightarrow> int option" where
  "EuclidDiv x m =
     (if m = 0 then None
      else if 0 < m then Some (x div m)
      else Some (- (x div (- m))))"

text \<open>\<^verbatim>\<open>BitLen\<close>: the length of the absolute value in bits.\<close>

definition BitLen :: "int \<Rightarrow> int" where
  "BitLen x = bitlen \<bar>x\<bar>"

text \<open>Primality, as \<^verbatim>\<open>rand.Prime\<close> promises it of the number it returns.\<close>

definition is_prime :: "int \<Rightarrow> bool" where
  "is_prime p = (1 < p \<and> (\<forall>d\<in>{2..<p}. \<not> d dvd p))"

section \<open>Errors\<close>

text \<open>
  The three error kinds of the commitment scheme, the two failures that
  \<^verbatim>\<open>NewRSABased\<close> passes on from the group constructor and from the prime generator,
  and the run-time panic (a method called on a nil integer, a division by zero).
\<close>

datatype error =
    ParameterError
  | InvalidElementError
  | RangeError
  | GroupSetupError
  | PrimeGenerationError
  | Panic

section \<open>The RSA group (package rsa)\<close>

text \<open>
  Modelled from the spec: the group-arithmetic collaborator of package \<^verbatim>\<open>rsa\<close>
  (the type \<^verbatim>\<open>rsa.Group\<close> and its methods \<^verbatim>\<open>Mul\<close>, \<^verbatim>\<open>Exp\<close>, \<^verbatim>\<open>Inv\<close>,
  \<^verbatim>\<open>IsElementInGroup\<close> and \<^verbatim>\<open>Homomorphism\<close>), which exposes modular multiply,
  modular exponentiate, modular inverse and the membership test of the integers
  coprime with the modulus \<open>N\<close>; \<open>E\<close> is the public exponent. A group that
  \<^verbatim>\<open>rsa.NewGroup\<close> returns has a positive modulus.
\<close>

record Group =
  Group_N :: int
  Group_E :: int

text \<open>Modelled from the spec: \<^verbatim>\<open>Group.Mul\<close>, modular multiply.\<close>

definition Group_Mul :: "Group \<Rightarrow> int \<Rightarrow> int \<Rightarrow> int" where
  "Group_Mul g x y = (x * y) mod Group_N g"

text \<open>Modelled from the spec: \<^verbatim>\<open>Group.Exp\<close>, modular exponentiate.\<close>

definition Group_Exp :: "Group \<Rightarrow> int \<Rightarrow> int \<Rightarrow> int option" where
  "Group_Exp g x e = ExpMod x e (Group_N g)"

text \<open>Modelled from the spec: \<^verbatim>\<open>Group.Inv\<close>, modular inverse.\<close>

definition Group_Inv :: "Group \<Rightarrow> int \<Rightarrow> int option" where
  "Group_Inv g x = ModInverse x (Group_N g)"

text \<open>
  Modelled from the spec: \<^verbatim>\<open>Group.IsElementInGroup\<close>, the membership test, a check of
  coprimality with the modulus.
\<close>

definition Group_IsElementInGroup :: "Group \<Rightarrow> int \<Rightarrow> bool" where
  "Group_IsElementInGroup g x = (gcd x (Group_N g) = 1)"

text \<open>
  Modelled from the spec: \<^verbatim>\<open>Group.Homomorphism\<close>, the power with the public exponent.
\<close>

definition Group_Homomorphism :: "Group \<Rightarrow> int \<Rightarrow> int option" where
  "Group_Homomorphism g x = Group_Exp g x (Group_E g)"

section \<open>The q-one-way homomorphism (package qoneway)\<close>

record RSABased =
  RSABased_Group :: Group
  RSABased_Q :: int
  RSABased_Homomorphism :: "int \<Rightarrow> int option"
  RSABased_HomomorphismInv :: "int \<Rightarrow> int"

text \<open>
  \<^verbatim>\<open>NewRSABased(bitLen)\<close>. The two sources of randomness are parameters:
  \<open>newGroup\<close> is \<^verbatim>\<open>rsa.NewGroup\<close> and \<open>randPrime\<close> is \<^verbatim>\<open>rand.Prime\<close> on the system's
  random reader, each \<^term>\<open>None\<close> when it returns an error. The method value
  \<^verbatim>\<open>rsa.Homomorphism\<close> is bound to the group after \<open>E\<close> has been set to \<open>q\<close>.
\<close>

definition NewRSABased ::
  "(int \<Rightarrow> Group option) \<Rightarrow> (int \<Rightarrow> int option) \<Rightarrow> int \<Rightarrow> error + RSABased" where
  "NewRSABased newGroup randPrime bitLen =
     (case newGroup bitLen of
        None \<Rightarrow> Inl GroupSetupError
      | Some rsa \<Rightarrow>
          (case randPrime (bitLen + 1) of
             None \<Rightarrow> Inl PrimeGenerationError
           | Some q \<Rightarrow>
               if Cmp q (Group_N rsa) < 1 then Inl ParameterError
               else
                 let rsa' = rsa\<lparr>Group_E := q\<rparr>
                 in Inr \<lparr>RSABased_Group = rsa',
                         RSABased_Q = q,
                         RSABased_Homomorphism = Group_Homomorphism rsa',
                         RSABased_HomomorphismInv = (\<lambda>y. y)\<rparr>))"

text \<open>
  What \<^verbatim>\<open>NewRSABased\<close> establishes on a group with a positive modulus, and what
  every later operation relies on: \<open>Q\<close> exceeds the modulus, is the group's public
  exponent, and the two function fields are the group's homomorphism and the
  identity.
\<close>

definition RSABased_ok :: "RSABased \<Rightarrow> bool" where
  "RSABased_ok qw =
     (0 < Group_N (RSABased_Group qw) \<and>
      Group_N (RSABased_Group qw) < RSABased_Q qw \<and>
      Group_E (RSABased_Group qw) = RSABased_Q qw \<and>
      RSABased_Homomorphism qw = Group_Homomorphism (RSABased_Group qw) \<and>
      RSABased_HomomorphismInv qw = (\<lambda>y. y))"

subsection \<open>Committer\<close>

record Committer =
  Committer_RSABased :: RSABased
  Committer_Y :: int
  Committer_committedValue :: "int option"
  Committer_r :: "int option"

definition NewCommitter :: "RSABased \<Rightarrow> int \<Rightarrow> error + Committer" where
  "NewCommitter qOneWay y =
     (if \<not> Group_IsElementInGroup (RSABased_Group qOneWay) y then Inl InvalidElementError
      else Inr \<lparr>Committer_RSABased = qOneWay,
                Committer_Y = y,
                Committer_committedValue = None,
                Committer_r = None\<rparr>)"

text \<open>
  The methods of the committer have a pointer receiver: each takes the committer and
  returns its result together with the committer as the call leaves it.

  \<^verbatim>\<open>computeCommitment(a)\<close>. The argument \<open>r\<close> is the element that
  \<^verbatim>\<open>Group.GetRandomElement\<close> returns in this call. \<^verbatim>\<open>Group.Mul\<close> on a nil factor
  panics.
\<close>

definition computeCommitment ::
  "Committer \<Rightarrow> int \<Rightarrow> int \<Rightarrow> (error + (int \<times> int)) \<times> Committer" where
  "computeCommitment c r a =
     (let G = RSABased_Group (Committer_RSABased c);
          t1 = Group_Exp G (Committer_Y c) a;
          t2 = RSABased_Homomorphism (Committer_RSABased c) r
      in case (t1, t2) of
           (Some t1', Some t2') \<Rightarrow> (Inr (Group_Mul G t1' t2', r), c)
         | _ \<Rightarrow> (Inl Panic, c))"

definition GetCommitMsg :: "Committer \<Rightarrow> int \<Rightarrow> int \<Rightarrow> (error + int) \<times> Committer" where
  "GetCommitMsg c r a =
     (if Cmp a (RSABased_Q (Committer_RSABased c)) \<noteq> - 1 then (Inl RangeError, c)
      else
        (case computeCommitment c r a of
           (Inl e, c1) \<Rightarrow> (Inl e, c1)
         | (Inr (commitment, r'), c1) \<Rightarrow>
             (Inr commitment,
              c1\<lparr>Committer_committedValue := Some a, Committer_r := Some r'\<rparr>)))"

definition GetDecommitMsg :: "Committer \<Rightarrow> int option \<times> int option" where
  "GetDecommitMsg c = (Committer_committedValue c, Committer_r c)"

text \<open>
  \<^verbatim>\<open>GetCommitmentToMultiplication(a, b, u)\<close>; \<open>r\<close> is the random element drawn by
  its call of \<^verbatim>\<open>computeCommitment\<close>. \<^verbatim>\<open>Group.Inv\<close> and \<^verbatim>\<open>Group.Mul\<close> panic on
  a nil argument.
\<close>

definition GetCommitmentToMultiplication ::
  "Committer \<Rightarrow> int \<Rightarrow> int \<Rightarrow> int \<Rightarrow> int \<Rightarrow> (error + (int \<times> int \<times> int)) \<times> Committer" where
  "GetCommitmentToMultiplication c r a b u =
     (let qw = Committer_RSABased c;
          G = RSABased_Group qw;
          commitment = a * b
      in case EuclidMod commitment (RSABased_Q qw) of
           None \<Rightarrow> (Inl Panic, c)
         | Some cMod \<Rightarrow>
        (case computeCommitment c r cMod of
           (Inl e, c1) \<Rightarrow> (Inl e, c1)
         | (Inr (C, oo), c1) \<Rightarrow>
        (case EuclidDiv (commitment - cMod) (RSABased_Q qw) of
           None \<Rightarrow> (Inl Panic, c1)
         | Some j \<Rightarrow>
        (case Group_Exp G u a of
           None \<Rightarrow> (Inl Panic, c1)
         | Some uToa \<Rightarrow>
        (case Group_Inv G uToa of
           None \<Rightarrow> (Inl Panic, c1)
         | Some uToaInv \<Rightarrow>
        (let t = Group_Mul G oo uToaInv
         in case Group_Exp G (Committer_Y c1) j of
              None \<Rightarrow> (Inl Panic, c1)
            | Some yToj \<Rightarrow>
           (case Group_Inv G yToj of
              None \<Rightarrow> (Inl Panic, c1)
            | Some yTojInv \<Rightarrow>
                let t1 = RSABased_HomomorphismInv qw yTojInv
                in (Inr (C, oo, Group_Mul G t t1), c1))))))))"

subsection \<open>Receiver\<close>

record Receiver =
  Receiver_RSABased :: RSABased
  Receiver_Y :: int
  Receiver_x :: int
  Receiver_commitment :: "int option"

definition SetCommitment :: "Receiver \<Rightarrow> int \<Rightarrow> Receiver" where
  "SetCommitment rc c = rc\<lparr>Receiver_commitment := Some c\<rparr>"

text \<open>
  \<^verbatim>\<open>CheckDecommitment(R, a)\<close>; comparing with a commitment that was never set, or
  multiplying a nil power, panics.
\<close>

definition CheckDecommitment :: "Receiver \<Rightarrow> int \<Rightarrow> int \<Rightarrow> error + bool" where
  "CheckDecommitment rc R a =
     (let G = RSABased_Group (Receiver_RSABased rc);
          t1 = Group_Exp G (Receiver_Y rc) a;
          t2 = Group_Exp G R (RSABased_Q (Receiver_RSABased rc))
      in case (t1, t2, Receiver_commitment rc) of
           (Some t1', Some t2', Some cm) \<Rightarrow> Inr (Cmp (Group_Mul G t1' t2') cm = 0)
         | _ \<Rightarrow> Inl Panic)"

section \<open>Equality of two committed values (package df)\<close>

text \<open>
  Modelled from the spec: \<^verbatim>\<open>common.GetRandomInt(b)\<close>, which draws an integer of
  \<open>[0, b)\<close>. The draw is determined by an explicit seed, every value of the interval
  being the draw of some seed; a bound that is not positive makes the generator panic.
\<close>

definition GetRandomInt :: "int \<Rightarrow> int \<Rightarrow> int option" where
  "GetRandomInt seed b = (if b \<le> 0 then None else Some (seed mod b))"

text \<open>
  Modelled from the spec: the group \<^verbatim>\<open>QRSpecialRSA\<close> of the commitment's parameters,
  with modular multiply and modular exponentiate on its modulus \<open>N\<close>.
\<close>

record QRSpecialRSA =
  QRSpecialRSA_N :: int

text \<open>Modelled from the spec: \<^verbatim>\<open>QRSpecialRSA.Mul\<close>, modular multiply.\<close>

definition QRSpecialRSA_Mul :: "QRSpecialRSA \<Rightarrow> int \<Rightarrow> int \<Rightarrow> int" where
  "QRSpecialRSA_Mul g x y = (x * y) mod QRSpecialRSA_N g"

text \<open>Modelled from the spec: \<^verbatim>\<open>QRSpecialRSA.Exp\<close>, modular exponentiate.\<close>

definition QRSpecialRSA_Exp :: "QRSpecialRSA \<Rightarrow> int \<Rightarrow> int \<Rightarrow> int option" where
  "QRSpecialRSA_Exp g x e = ExpMod x e (QRSpecialRSA_N g)"

text \<open>
  Modelled from the spec: the committer and the receiver of package \<^verbatim>\<open>df\<close>, of which
  the proof uses the group, the bound \<open>T\<close> on committed values, the size \<open>B\<close>, the
  committer's decommitment pair, the receiver's \<^verbatim>\<open>Commitment\<close> and
  \<^verbatim>\<open>ComputeCommit(a, r)\<close>, the commitment \<open>G ^ a * H ^ r mod N\<close> to \<open>a\<close> with blinding
  \<open>r\<close> on the two bases \<open>G\<close> and \<open>H\<close>. Both embed the same parameters.
\<close>

record df_commitment =
  df_QRSpecialRSA :: QRSpecialRSA
  df_G :: int
  df_H :: int
  df_T :: int
  df_B :: int

text \<open>
  Modelled from the spec: \<^verbatim>\<open>ComputeCommit(a, r)\<close>, the commitment to \<open>a\<close> with blinding
  \<open>r\<close>; the product panics on a nil power.
\<close>

definition df_ComputeCommit :: "df_commitment \<Rightarrow> int \<Rightarrow> int \<Rightarrow> error + int" where
  "df_ComputeCommit p a r =
     (case (QRSpecialRSA_Exp (df_QRSpecialRSA p) (df_G p) a,
            QRSpecialRSA_Exp (df_QRSpecialRSA p) (df_H p) r) of
        (Some tmp1, Some tmp2) \<Rightarrow> Inr (QRSpecialRSA_Mul (df_QRSpecialRSA p) tmp1 tmp2)
      | _ \<Rightarrow> Inl Panic)"

text \<open>
  Modelled from the spec: the committer of package \<^verbatim>\<open>df\<close>, its parameters and its
  decommitment pair.
\<close>

record df_Committer =
  df_Committer_commitment :: df_commitment
  df_Committer_committedValue :: "int option"
  df_Committer_r :: "int option"

text \<open>
  Modelled from the spec: the receiver of package \<^verbatim>\<open>df\<close>, its parameters and the
  commitment it holds.
\<close>

record df_Receiver =
  df_Receiver_commitment :: df_commitment
  df_Receiver_Commitment :: "int option"

text \<open>
  Modelled from the spec: the committer's \<^verbatim>\<open>GetDecommitMsg\<close>, the stored value and
  blinding.
\<close>

definition df_GetDecommitMsg :: "df_Committer \<Rightarrow> int option \<times> int option" where
  "df_GetDecommitMsg c = (df_Committer_committedValue c, df_Committer_r c)"

text \<open>The parameters are well formed: a positive modulus and bound, bases in the group.\<close>

definition df_commitment_ok :: "df_commitment \<Rightarrow> bool" where
  "df_commitment_ok p =
     (0 < QRSpecialRSA_N (df_QRSpecialRSA p) \<and> 0 < df_T p \<and>
      gcd (df_G p) (QRSpecialRSA_N (df_QRSpecialRSA p)) = 1 \<and>
      gcd (df_H p) (QRSpecialRSA_N (df_QRSpecialRSA p)) = 1)"

subsection \<open>Prover\<close>

record EqualityProver =
  EqualityProver_committer1 :: df_Committer
  EqualityProver_committer2 :: df_Committer
  EqualityProver_challengeSpaceSize :: int
  EqualityProver_r1 :: "int option"
  EqualityProver_r21 :: "int option"
  EqualityProver_r22 :: "int option"

definition NewEqualityProver :: "df_Committer \<Rightarrow> df_Committer \<Rightarrow> int \<Rightarrow> EqualityProver" where
  "NewEqualityProver committer1 committer2 challengeSpaceSize =
     \<lparr>EqualityProver_committer1 = committer1,
      EqualityProver_committer2 = committer2,
      EqualityProver_challengeSpaceSize = challengeSpaceSize,
      EqualityProver_r1 = None,
      EqualityProver_r21 = None,
      EqualityProver_r22 = None\<rparr>"

text \<open>
  \<^verbatim>\<open>GetProofRandomData()\<close>; the three seeds are those of its three draws. The sizes
  are of type \<^verbatim>\<open>int\<close> and far from its limits, so they are added as integers.
\<close>

definition GetProofRandomData ::
  "EqualityProver \<Rightarrow> int \<Rightarrow> int \<Rightarrow> int \<Rightarrow> (error + (int \<times> int)) \<times> EqualityProver" where
  "GetProofRandomData p seed1 seed2 seed3 =
     (let c1 = df_Committer_commitment (EqualityProver_committer1 p);
          c2 = df_Committer_commitment (EqualityProver_committer2 p);
          nLen = BitLen (QRSpecialRSA_N (df_QRSpecialRSA c1));
          exp = nLen + EqualityProver_challengeSpaceSize p;
          b = ExpNil 2 exp * df_T c1
      in case GetRandomInt seed1 b of
           None \<Rightarrow> (Inl Panic, p)
         | Some r1 \<Rightarrow>
        (let p1 = p\<lparr>EqualityProver_r1 := Some r1\<rparr>;
             b' = ExpNil 2 (df_B c1 + 2 * nLen + EqualityProver_challengeSpaceSize p)
         in case GetRandomInt seed2 b' of
              None \<Rightarrow> (Inl Panic, p1)
            | Some r21 \<Rightarrow>
           (let p2 = p1\<lparr>EqualityProver_r21 := Some r21\<rparr>;
                b'' = ExpNil 2 (df_B c1 + 2 * nLen + EqualityProver_challengeSpaceSize p)
            in case GetRandomInt seed3 b'' of
                 None \<Rightarrow> (Inl Panic, p2)
               | Some r22 \<Rightarrow>
              (let p3 = p2\<lparr>EqualityProver_r22 := Some r22\<rparr>
               in case (df_ComputeCommit c1 r1 r21, df_ComputeCommit c2 r1 r22) of
                    (Inr t1, Inr t2) \<Rightarrow> (Inr (t1, t2), p3)
                  | _ \<Rightarrow> (Inl Panic, p3)))))"

text \<open>
  \<^verbatim>\<open>GetProofData(challenge)\<close>, over the integers; a pair that was never set is nil
  and makes the arithmetic panic.
\<close>

definition GetProofData :: "EqualityProver \<Rightarrow> int \<Rightarrow> error + (int \<times> int \<times> int)" where
  "GetProofData p challenge =
     (case (df_GetDecommitMsg (EqualityProver_committer1 p),
            df_GetDecommitMsg (EqualityProver_committer2 p),
            EqualityProver_r1 p, EqualityProver_r21 p, EqualityProver_r22 p) of
        ((Some a, Some rr1), (_, Some rr2), Some r1, Some r21, Some r22) \<Rightarrow>
          (let s1 = challenge * a + r1;
               s21 = challenge * rr1 + r21;
               s22 = challenge * rr2 + r22
           in Inr (s1, s21, s22))
      | _ \<Rightarrow> Inl Panic)"

subsection \<open>Verifier\<close>

record EqualityVerifier =
  EqualityVerifier_receiver1 :: df_Receiver
  EqualityVerifier_receiver2 :: df_Receiver
  EqualityVerifier_challengeSpaceSize :: int
  EqualityVerifier_challenge :: "int option"
  EqualityVerifier_proofRandomData1 :: "int option"
  EqualityVerifier_proofRandomData2 :: "int option"

definition NewEqualityVerifier :: "df_Receiver \<Rightarrow> df_Receiver \<Rightarrow> int \<Rightarrow> EqualityVerifier" where
  "NewEqualityVerifier receiver1 receiver2 challengeSpaceSize =
     \<lparr>EqualityVerifier_receiver1 = receiver1,
      EqualityVerifier_receiver2 = receiver2,
      EqualityVerifier_challengeSpaceSize = challengeSpaceSize,
      EqualityVerifier_challenge = None,
      EqualityVerifier_proofRandomData1 = None,
      EqualityVerifier_proofRandomData2 = None\<rparr>"

definition SetProofRandomData :: "EqualityVerifier \<Rightarrow> int \<Rightarrow> int \<Rightarrow> EqualityVerifier" where
  "SetProofRandomData v proofRandomData1 proofRandomData2 =
     v\<lparr>EqualityVerifier_proofRandomData1 := Some proofRandomData1,
       EqualityVerifier_proofRandomData2 := Some proofRandomData2\<rparr>"

definition GetChallenge :: "EqualityVerifier \<Rightarrow> int \<Rightarrow> (error + int) \<times> EqualityVerifier" where
  "GetChallenge v seed =
     (let b = ExpNil 2 (EqualityVerifier_challengeSpaceSize v)
      in case GetRandomInt seed b of
           None \<Rightarrow> (Inl Panic, v)
         | Some challenge \<Rightarrow> (Inr challenge, v\<lparr>EqualityVerifier_challenge := Some challenge\<rparr>))"

definition SetChallenge :: "EqualityVerifier \<Rightarrow> int \<Rightarrow> EqualityVerifier" where
  "SetChallenge v challenge = v\<lparr>EqualityVerifier_challenge := Some challenge\<rparr>"

text \<open>
  \<^verbatim>\<open>Verify(s1, s21, s22)\<close>: both sides of both equations are computed, then compared.
\<close>

definition Verify :: "EqualityVerifier \<Rightarrow> int \<Rightarrow> int \<Rightarrow> int \<Rightarrow> error + bool" where
  "Verify v s1 s21 s22 =
     (let rc1 = EqualityVerifier_receiver1 v;
          rc2 = EqualityVerifier_receiver2 v;
          g1 = df_QRSpecialRSA (df_Receiver_commitment rc1);
          g2 = df_QRSpecialRSA (df_Receiver_commitment rc2)
      in case (df_Receiver_Commitment rc1, df_Receiver_Commitment rc2,
               EqualityVerifier_challenge v,
               EqualityVerifier_proofRandomData1 v, EqualityVerifier_proofRandomData2 v) of
           (Some cm1, Some cm2, Some challenge, Some prd1, Some prd2) \<Rightarrow>
             (case (QRSpecialRSA_Exp g1 cm1 challenge,
                    df_ComputeCommit (df_Receiver_commitment rc1) s1 s21,
                    QRSpecialRSA_Exp g2 cm2 challenge,
                    df_ComputeCommit (df_Receiver_commitment rc2) s1 s22) of
                (Some left1, Inr right1, Some left2, Inr right2) \<Rightarrow>
                  Inr (Cmp (QRSpecialRSA_Mul g1 prd1 left1) right1 = 0 \<and>
                       Cmp (QRSpecialRSA_Mul g2 prd2 left2) right2 = 0)
              | _ \<Rightarrow> Inl Panic)
         | _ \<Rightarrow> Inl Panic)"

section \<open>Example parameters\<close>

text \<open>
  A small instance on which every statement below is evaluated: the modulus
  \<open>15 = 3 * 5\<close>, the prime \<open>Q = 17\<close>, the receiver's secret \<open>x = 2\<close> and its image
  \<open>Y = 2 ^ 17 mod 15 = 2\<close>.
\<close>

definition toyGroup :: Group where
  "toyGroup = \<lparr>Group_N = 15, Group_E = 17\<rparr>"

definition toyQOneWay :: RSABased where
  "toyQOneWay = \<lparr>RSABased_Group = toyGroup, RSABased_Q = 17,
                  RSABased_Homomorphism = Group_Homomorphism toyGroup,
                  RSABased_HomomorphismInv = (\<lambda>y. y)\<rparr>"

definition toyCommitter :: Committer where
  "toyCommitter = \<lparr>Committer_RSABased = toyQOneWay, Committer_Y = 2,
                    Committer_committedValue = None, Committer_r = None\<rparr>"

definition toyReceiver :: Receiver where
  "toyReceiver = \<lparr>Receiver_RSABased = toyQOneWay, Receiver_Y = 2, Receiver_x = 2,
                   Receiver_commitment = None\<rparr>"

definition toyCommitted :: Committer where
  "toyCommitted = toyCommitter\<lparr>Committer_committedValue := Some 7, Committer_r := Some 4\<rparr>"

definition toyCommittedB :: Committer where
  "toyCommittedB = toyCommitter\<lparr>Committer_committedValue := Some 6, Committer_r := Some 4\<rparr>"

definition toyNewGroup :: "int \<Rightarrow> Group option" where
  "toyNewGroup bitLen = (if bitLen = 4 then Some \<lparr>Group_N = 15, Group_E = 3\<rparr> else None)"

definition toyRandPrime :: "int \<Rightarrow> int option" where
  "toyRandPrime bits = (if bits = 5 then Some 17 else None)"

text \<open>
  Two commitments to the value 3 on the moduli 35 and 21, with blinding 5 and 6,
  and a prover and a verifier of their equality with challenges of two bits.
\<close>

definition toyParams1 :: df_commitment where
  "toyParams1 = \<lparr>df_QRSpecialRSA = \<lparr>QRSpecialRSA_N = 35\<rparr>, df_G = 4, df_H = 9, df_T = 8, df_B = 2\<rparr>"

definition toyParams2 :: df_commitment where
  "toyParams2 = \<lparr>df_QRSpecialRSA = \<lparr>QRSpecialRSA_N = 21\<rparr>, df_G = 4, df_H = 16, df_T = 8, df_B = 2\<rparr>"

definition toyDfCommitter1 :: df_Committer where
  "toyDfCommitter1 = \<lparr>df_Committer_commitment = toyParams1,
     df_Committer_committedValue = Some 3, df_Committer_r = Some 5\<rparr>"

definition toyDfCommitter2 :: df_Committer where
  "toyDfCommitter2 = \<lparr>df_Committer_commitment = toyParams2,
     df_Committer_committedValue = Some 3, df_Committer_r = Some 6\<rparr>"

definition toyDfReceiver1 :: df_Receiver where
  "toyDfReceiver1 = \<lparr>df_Receiver_commitment = toyParams1, df_Receiver_Commitment = Some 11\<rparr>"

definition toyDfReceiver2 :: df_Receiver where
  "toyDfReceiver2 = \<lparr>df_Receiver_commitment = toyParams2, df_Receiver_Commitment = Some 1\<rparr>"

definition toyProver :: EqualityProver where
  "toyProver = NewEqualityProver toyDfCommitter1 toyDfCommitter2 2"

definition toyVerifier :: EqualityVerifier where
  "toyVerifier = NewEqualityVerifier toyDfReceiver1 toyDfReceiver2 2"

lemmas toy_defs = toyGroup_def toyQOneWay_def toyCommitter_def toyReceiver_def

section \<open>Modular arithmetic\<close>

lemma ModInverse_correct:
  assumes "0 < n" "gcd g n = 1"
  shows "\<exists>i. ModInverse g n = Some i \<and> (g * i) mod n = 1 mod n"
proof -
  let ?x = "nat (g mod n)" and ?y = "nat n"
  let ?u = "fst (bezw ?x ?y)" and ?v = "snd (bezw ?x ?y)"
  have gx: "int ?x = g mod n" using assms(1) by simp
  have gy: "int ?y = n" using assms(1) by simp
  have "gcd (g mod n) n = 1" using assms(2) by (metis gcd_red_int gcd.commute)
  then have "gcd (int ?x) (int ?y) = 1" using gx gy by simp
  then have "int (gcd ?x ?y) = 1" by (simp only: gcd_int_int_eq)
  then have bz: "?u * (g mod n) + ?v * n = 1" using bezw_aux [of ?x ?y] gx gy by simp
  have "(g * (?u mod n)) mod n = (g mod n * ?u) mod n"
    by (simp add: mod_mult_right_eq mod_mult_left_eq mult.commute)
  also have "\<dots> = (?u * (g mod n) + ?v * n) mod n" by (simp add: mult.commute)
  also have "\<dots> = 1 mod n" using bz by simp
  finally show ?thesis using assms(2) by (simp add: ModInverse_def)
qed

lemma ExpMod_nonneg: "0 \<le> y \<Longrightarrow> ExpMod x y m = Some (x ^ nat y mod m)"
  by (simp add: ExpMod_def)

lemma ExpMod_total:
  assumes N: "0 < n" and cop: "gcd g n = 1"
  shows "\<exists>z. ExpMod g e n = Some z"
proof -
  obtain gi where "ModInverse g n = Some gi" using ModInverse_correct [OF N cop] by blast
  then show ?thesis by (simp add: ExpMod_def)
qed

lemma ExpMod_reduced:
  assumes "ExpMod g e n = Some z"
  shows "z mod n = z"
  using assms by (auto simp: ExpMod_def split: if_splits option.splits)

lemma mod_inverse_power:
  assumes "(y * yi) mod n = 1 mod (n::int)"
  shows "(yi ^ k * y ^ k) mod n = 1 mod n"
proof -
  have "(yi ^ k * y ^ k) mod n = ((y * yi) ^ k) mod n"
    by (simp add: power_mult_distrib mult.commute)
  also have "\<dots> = ((y * yi) mod n) ^ k mod n" by (simp add: power_mod)
  also have "\<dots> = (1 mod n) ^ k mod n" using assms by simp
  also have "\<dots> = 1 mod n" by (simp add: power_mod)
  finally show ?thesis .
qed

lemma power_mod_cong:
  fixes x y n :: int
  assumes "x mod n = y mod n"
  shows "x ^ k mod n = y ^ k mod n"
  by (metis assms power_mod)

lemma mod_one_power:
  fixes x n :: int
  assumes "x mod n = 1 mod n"
  shows "x ^ k mod n = 1 mod n"
  using power_mod_cong [OF assms, of k] by simp

lemma coprime_power_mod:
  fixes u N :: int
  assumes "gcd u N = 1"
  shows "gcd (u ^ k mod N) N = 1"
proof -
  have "coprime u N" using assms by (simp add: coprime_iff_gcd_eq_1)
  then have "coprime (u ^ k) N" by simp
  then have "gcd (u ^ k) N = 1" by (simp add: coprime_iff_gcd_eq_1)
  then show ?thesis by (metis gcd_red_int gcd.commute)
qed

text \<open>
  Multiplying a power by enough factors \<open>g\<close> makes the exponent a natural number.
\<close>

lemma ExpMod_shift:
  assumes N: "0 < n" and cop: "gcd g n = 1"
    and z: "ExpMod g e n = Some z" and m: "0 \<le> e + int m"
  shows "(z * g ^ m) mod n = g ^ nat (e + int m) mod n"
proof (cases "0 \<le> e")
  case True
  then have "z = g ^ nat e mod n" using z by (simp add: ExpMod_def)
  then have "(z * g ^ m) mod n = (g ^ nat e * g ^ m) mod n" by (simp add: mod_mult_left_eq)
  also have "\<dots> = g ^ (nat e + m) mod n" by (simp add: power_add)
  also have "nat e + m = nat (e + int m)" using True by simp
  finally show ?thesis .
next
  case False
  obtain gi where gi: "ModInverse g n = Some gi" "(g * gi) mod n = 1 mod n"
    using ModInverse_correct [OF N cop] by blast
  let ?k = "nat (- e)"
  have zk: "z = gi ^ ?k mod n" using z gi(1) False by (simp add: ExpMod_def)
  have km: "m = ?k + nat (e + int m)" using m False by simp
  have "(z * g ^ m) mod n = (gi ^ ?k * g ^ m) mod n" by (simp add: zk mod_mult_left_eq)
  also have "\<dots> = (gi ^ ?k * (g ^ ?k * g ^ nat (e + int m))) mod n"
    using km by (metis power_add)
  also have "\<dots> = ((gi ^ ?k * g ^ ?k) * g ^ nat (e + int m)) mod n" by (simp add: mult.assoc)
  also have "\<dots> = ((gi ^ ?k * g ^ ?k) mod n * g ^ nat (e + int m)) mod n"
    by (simp only: mod_mult_left_eq)
  also have "\<dots> = (1 mod n * g ^ nat (e + int m)) mod n"
    by (simp only: mod_inverse_power [OF gi(2)])
  also have "\<dots> = g ^ nat (e + int m) mod n" by (simp only: mod_mult_left_eq mult_1)
  finally show ?thesis .
qed

lemma mod_cancel_power:
  fixes n g x y :: int
  assumes N: "0 < n" and cop: "gcd g n = 1"
    and eq: "(x * g ^ m) mod n = (y * g ^ m) mod n"
  shows "x mod n = y mod n"
proof -
  obtain gi where gi: "(g * gi) mod n = 1 mod n"
    using ModInverse_correct [OF N cop] by blast
  have one: "(g ^ m * gi ^ m) mod n = 1 mod n"
    using mod_inverse_power [of gi g n m] gi by (simp add: mult.commute)
  have r: "(w * g ^ m * gi ^ m) mod n = w mod n" for w
  proof -
    have "(w * g ^ m * gi ^ m) mod n = (w * (g ^ m * gi ^ m)) mod n" by (simp add: mult.assoc)
    also have "\<dots> = (w * ((g ^ m * gi ^ m) mod n)) mod n" by (simp only: mod_mult_right_eq)
    also have "\<dots> = (w * (1 mod n)) mod n" by (simp only: one)
    also have "\<dots> = w mod n" by (simp only: mod_mult_right_eq mult_1_right)
    finally show ?thesis .
  qed
  have "(x * g ^ m * gi ^ m) mod n = ((x * g ^ m) mod n * gi ^ m) mod n"
    by (simp only: mod_mult_left_eq)
  also have "\<dots> = ((y * g ^ m) mod n * gi ^ m) mod n" by (simp only: eq)
  also have "\<dots> = (y * g ^ m * gi ^ m) mod n" by (simp only: mod_mult_left_eq)
  finally show ?thesis by (simp only: r)
qed

lemma ExpMod_add:
  assumes N: "0 < n" and cop: "gcd g n = 1"
    and x: "ExpMod g x n = Some X" and y: "ExpMod g y n = Some Y"
    and z: "ExpMod g (x + y) n = Some Z"
  shows "Z = (X * Y) mod n"
proof -
  let ?m1 = "nat \<bar>x\<bar>" and ?m2 = "nat \<bar>y\<bar>"
  have sx: "(X * g ^ ?m1) mod n = g ^ nat (x + int ?m1) mod n"
    by (rule ExpMod_shift [OF N cop x]) simp
  have sy: "(Y * g ^ ?m2) mod n = g ^ nat (y + int ?m2) mod n"
    by (rule ExpMod_shift [OF N cop y]) simp
  have sz: "(Z * g ^ (?m1 + ?m2)) mod n = g ^ nat (x + y + int (?m1 + ?m2)) mod n"
    by (rule ExpMod_shift [OF N cop z]) simp
  have e: "nat (x + y + int (?m1 + ?m2)) = nat (x + int ?m1) + nat (y + int ?m2)"
    by simp
  have "((X * Y) * g ^ (?m1 + ?m2)) mod n = ((X * g ^ ?m1) * (Y * g ^ ?m2)) mod n"
    by (simp add: power_add mult.assoc mult.left_commute)
  also have "\<dots> = ((X * g ^ ?m1) mod n * ((Y * g ^ ?m2) mod n)) mod n"
    by (simp only: mod_mult_eq)
  also have "\<dots> = (g ^ nat (x + int ?m1) mod n * (g ^ nat (y + int ?m2) mod n)) mod n"
    by (simp only: sx sy)
  also have "\<dots> = (g ^ nat (x + int ?m1) * g ^ nat (y + int ?m2)) mod n"
    by (simp only: mod_mult_eq)
  also have "\<dots> = g ^ nat (x + y + int (?m1 + ?m2)) mod n"
    by (simp only: e power_add)
  also have "\<dots> = (Z * g ^ (?m1 + ?m2)) mod n" by (simp only: sz)
  finally have "(Z * g ^ (?m1 + ?m2)) mod n = ((X * Y) * g ^ (?m1 + ?m2)) mod n" by simp
  then have "Z mod n = (X * Y) mod n" by (rule mod_cancel_power [OF N cop])
  then show ?thesis using ExpMod_reduced [OF z] by simp
qed

lemma ExpMod_mult:
  assumes N: "0 < n" and cop: "gcd g n = 1"
    and x: "ExpMod g x n = Some X"
  shows "ExpMod g (int c * x) n = Some (X ^ c mod n)"
proof (induction c)
  case 0
  show ?case by (simp add: ExpMod_def)
next
  case (Suc c)
  obtain Z where Z: "ExpMod g (int c * x + x) n = Some Z"
    using ExpMod_total [OF N cop] by blast
  have "Z = (X ^ c mod n * X) mod n" by (rule ExpMod_add [OF N cop Suc.IH x Z])
  then have "Z = X ^ Suc c mod n" by (simp add: mod_mult_left_eq mod_mult_right_eq mult.commute)
  moreover have "int (Suc c) * x = int c * x + x" by (simp add: algebra_simps)
  ultimately show ?case using Z by simp
qed

lemma ExpNil_pos: "0 < ExpNil 2 e"
  by (simp add: ExpNil_def)

lemma ExpNil_2: "ExpNil 2 e = 2 ^ nat e"
  by (simp add: ExpNil_def)

section \<open>The commitment scheme\<close>

subsection \<open>Lemmas\<close>

lemma RSABased_ok_Homomorphism:
  "RSABased_ok qw \<Longrightarrow>
   RSABased_Homomorphism qw x = Some (x ^ nat (RSABased_Q qw) mod Group_N (RSABased_Group qw))"
  by (simp add: RSABased_ok_def Group_Homomorphism_def Group_Exp_def ExpMod_def)

lemma NewRSABased_ok:
  assumes "NewRSABased newGroup randPrime bitLen = Inr qw"
    and "\<forall>g. newGroup bitLen = Some g \<longrightarrow> 0 < Group_N g"
  shows "RSABased_ok qw"
  using assms
  by (auto simp: NewRSABased_def RSABased_ok_def Cmp_def Let_def split: option.splits if_splits)

lemma computeCommitment_nonneg:
  assumes "RSABased_ok (Committer_RSABased c)" "0 \<le> a"
  shows "computeCommitment c r a =
    (Inr ((Committer_Y c ^ nat a * r ^ nat (RSABased_Q (Committer_RSABased c)))
           mod Group_N (RSABased_Group (Committer_RSABased c)), r), c)"
  using assms
  by (simp add: computeCommitment_def RSABased_ok_Homomorphism Group_Exp_def ExpMod_nonneg
      Group_Mul_def mod_mult_eq)

lemma computeCommitment_neg:
  assumes ok: "RSABased_ok (Committer_RSABased c)" and neg: "a < 0"
    and cop: "gcd (Committer_Y c) (Group_N (RSABased_Group (Committer_RSABased c))) = 1"
  shows "\<exists>cm. computeCommitment c r a = (Inr (cm, r), c) \<and>
           0 \<le> cm \<and> cm < Group_N (RSABased_Group (Committer_RSABased c)) \<and>
           (cm * Committer_Y c ^ nat (- a)) mod Group_N (RSABased_Group (Committer_RSABased c))
             = r ^ nat (RSABased_Q (Committer_RSABased c))
                 mod Group_N (RSABased_Group (Committer_RSABased c))"
proof -
  let ?N = "Group_N (RSABased_Group (Committer_RSABased c))"
  let ?Q = "RSABased_Q (Committer_RSABased c)"
  let ?Y = "Committer_Y c"
  let ?k = "nat (- a)"
  have N: "0 < ?N" using ok by (simp add: RSABased_ok_def)
  obtain yi where yi: "ModInverse ?Y ?N = Some yi" "(?Y * yi) mod ?N = 1 mod ?N"
    using ModInverse_correct [OF N cop] by blast
  let ?cm = "(yi ^ ?k mod ?N * (r ^ nat ?Q mod ?N)) mod ?N"
  have cc: "computeCommitment c r a = (Inr (?cm, r), c)"
    using neg yi(1)
    by (simp add: computeCommitment_def RSABased_ok_Homomorphism [OF ok] Group_Exp_def
        ExpMod_def Group_Mul_def Let_def)
  have "(?cm * ?Y ^ ?k) mod ?N = ((yi ^ ?k * ?Y ^ ?k) * r ^ nat ?Q) mod ?N"
    by (simp add: mod_mult_left_eq mod_mult_right_eq mod_mult_eq mult.assoc mult.left_commute mult.commute)
  also have "\<dots> = ((yi ^ ?k * ?Y ^ ?k) mod ?N * r ^ nat ?Q) mod ?N"
    by (simp add: mod_mult_left_eq)
  also have "\<dots> = (1 mod ?N * r ^ nat ?Q) mod ?N"
    using mod_inverse_power [OF yi(2)] by simp
  also have "\<dots> = r ^ nat ?Q mod ?N" by (simp add: mod_mult_left_eq)
  finally have "(?cm * ?Y ^ ?k) mod ?N = r ^ nat ?Q mod ?N" .
  moreover have "0 \<le> ?cm" "?cm < ?N" using N by simp_all
  ultimately show ?thesis using cc by blast
qed

lemma computeCommitment_state: "computeCommitment c r a = (x, c') \<Longrightarrow> c' = c"
  by (auto simp: computeCommitment_def Let_def split: option.splits)

lemma failed_commit_state: "GetCommitMsg c r a = (Inl e, c') \<Longrightarrow> c' = c"
  by (auto simp: GetCommitMsg_def computeCommitment_def Let_def split: if_splits option.splits prod.splits sum.splits)

lemma successful_commit_state:
  "GetCommitMsg c r a = (Inr cm, c') \<Longrightarrow>
   c' = c\<lparr>Committer_committedValue := Some a, Committer_r := Some r\<rparr>"
  by (auto simp: GetCommitMsg_def computeCommitment_def Let_def split: if_splits option.splits prod.splits sum.splits)

lemma commit_nonneg:
  assumes ok: "RSABased_ok (Committer_RSABased c)"
    and a: "0 \<le> a" "a < RSABased_Q (Committer_RSABased c)"
  shows "GetCommitMsg c r a =
           (Inr ((Committer_Y c ^ nat a * r ^ nat (RSABased_Q (Committer_RSABased c)))
                   mod Group_N (RSABased_Group (Committer_RSABased c))),
            c\<lparr>Committer_committedValue := Some a, Committer_r := Some r\<rparr>)"
  using a by (simp add: GetCommitMsg_def Cmp_def computeCommitment_nonneg [OF ok])

lemma recompute_nonneg:
  assumes ok: "RSABased_ok (Receiver_RSABased rc)" and a: "0 \<le> a"
  shows "CheckDecommitment (SetCommitment rc cm) R a =
           Inr ((Receiver_Y rc ^ nat a * R ^ nat (RSABased_Q (Receiver_RSABased rc)))
                  mod Group_N (RSABased_Group (Receiver_RSABased rc)) = cm)"
proof -
  have Q: "0 \<le> RSABased_Q (Receiver_RSABased rc)" using ok by (simp add: RSABased_ok_def)
  show ?thesis using a Q
    by (simp add: CheckDecommitment_def SetCommitment_def Group_Exp_def ExpMod_nonneg
        Group_Mul_def Cmp_def mod_mult_eq Let_def)
qed

lemma mult_commitment_identity:
  fixes N Y u oo ui yi :: int and a b Q j cm :: nat
  assumes expo: "a * b = j * Q + cm"
    and ui: "(u ^ a mod N * ui) mod N = 1 mod N"
    and yi: "(Y ^ j mod N * yi) mod N = 1 mod N"
  shows "(((Y ^ b * u ^ Q) mod N) ^ a * (((oo * ui) mod N * yi) mod N) ^ Q) mod N
           = (Y ^ cm * oo ^ Q) mod N"
proof -
  have u1: "(u ^ a * ui) mod N = 1 mod N" using ui by (simp add: mod_mult_left_eq)
  have y1: "(Y ^ j * yi) mod N = 1 mod N" using yi by (simp add: mod_mult_left_eq)
  have u1Q: "(u ^ a * ui) ^ Q mod N = 1 mod N" by (rule mod_one_power [OF u1])
  have y1Q: "(Y ^ j * yi) ^ Q mod N = 1 mod N" by (rule mod_one_power [OF y1])
  have Yab: "Y ^ (b * a) = (Y ^ j) ^ Q * Y ^ cm"
  proof -
    have "b * a = j * Q + cm" using expo by (simp add: mult.commute)
    then show ?thesis by (simp only: power_add power_mult)
  qed
  have ident: "(Y ^ b * u ^ Q) ^ a * (oo * ui * yi) ^ Q
                 = (Y ^ cm * oo ^ Q) * ((u ^ a * ui) ^ Q * (Y ^ j * yi) ^ Q)"
  proof -
    have "(Y ^ b * u ^ Q) ^ a = Y ^ (b * a) * (u ^ a) ^ Q"
      by (simp add: power_mult_distrib power_mult [symmetric] mult.commute)
    then show ?thesis
      by (simp add: Yab power_mult_distrib)
  qed
  have "((u ^ a * ui) ^ Q * (Y ^ j * yi) ^ Q) mod N
          = ((u ^ a * ui) ^ Q mod N * ((Y ^ j * yi) ^ Q mod N)) mod N"
    by (simp only: mod_mult_eq)
  also have "\<dots> = (1 mod N * (1 mod N)) mod N" by (simp only: u1Q y1Q)
  also have "\<dots> = 1 mod N" by (simp only: mod_mult_eq mult_1_right)
  finally have PR: "((u ^ a * ui) ^ Q * (Y ^ j * yi) ^ Q) mod N = 1 mod N" .
  have t: "((oo * ui) mod N * yi) mod N = (oo * ui * yi) mod N"
    by (simp add: mod_mult_left_eq)
  have "(((Y ^ b * u ^ Q) mod N) ^ a * (((oo * ui) mod N * yi) mod N) ^ Q) mod N
          = (((Y ^ b * u ^ Q) mod N) ^ a mod N * (((oo * ui * yi) mod N) ^ Q mod N)) mod N"
    by (simp only: t mod_mult_eq)
  also have "\<dots> = ((Y ^ b * u ^ Q) ^ a mod N * ((oo * ui * yi) ^ Q mod N)) mod N"
    by (simp only: power_mod)
  also have "\<dots> = ((Y ^ b * u ^ Q) ^ a * (oo * ui * yi) ^ Q) mod N"
    by (simp add: mod_mult_eq)
  also have "\<dots> = ((Y ^ cm * oo ^ Q) * ((u ^ a * ui) ^ Q * (Y ^ j * yi) ^ Q)) mod N"
    by (simp only: ident)
  also have "\<dots> = ((Y ^ cm * oo ^ Q) * (((u ^ a * ui) ^ Q * (Y ^ j * yi) ^ Q) mod N)) mod N"
    by (simp only: mod_mult_right_eq)
  also have "\<dots> = ((Y ^ cm * oo ^ Q) * (1 mod N)) mod N"
    by (simp only: PR)
  also have "\<dots> = (Y ^ cm * oo ^ Q) mod N"
    by (simp only: mod_mult_right_eq mult_1_right)
  finally show ?thesis .
qed

subsection \<open>The example instance\<close>

lemma toy_ok: "RSABased_ok toyQOneWay"
  by (simp add: RSABased_ok_def toyQOneWay_def toyGroup_def)

lemma toy_ok_committer: "RSABased_ok (Committer_RSABased toyCommitter)"
  using toy_ok by (simp add: toyCommitter_def)

lemma toy_ok_receiver: "RSABased_ok (Receiver_RSABased toyReceiver)"
  using toy_ok by (simp add: toyReceiver_def)

lemma toy_gcd_2: "gcd (2::int) 15 = 1" by code_simp

lemma toy_gcd_4: "gcd (4::int) 15 = 1" by code_simp

lemma toy_ModInverse_2: "ModInverse 2 15 = Some 8" by code_simp

lemma toy_prime_17: "is_prime 17" by code_simp

lemma toy_BitLen_17: "BitLen 17 = 5" by code_simp

lemma toy_NewRSABased: "NewRSABased toyNewGroup toyRandPrime 4 = Inr toyQOneWay"
  by (simp add: NewRSABased_def toyNewGroup_def toyRandPrime_def Cmp_def Let_def toy_defs)

lemma toy_NewCommitter: "NewCommitter toyQOneWay 2 = Inr toyCommitter"
  by (simp add: NewCommitter_def toy_defs Group_IsElementInGroup_def toy_gcd_2)

lemma toy_commit_7: "GetCommitMsg toyCommitter 4 7 = (Inr 2, toyCommitted)"
  by (simp add: GetCommitMsg_def computeCommitment_def toy_defs toyCommitted_def Cmp_def Let_def
      Group_Exp_def Group_Homomorphism_def Group_Mul_def ExpMod_def)

lemma toy_commit_17: "GetCommitMsg toyCommitted 4 17 = (Inl RangeError, toyCommitted)"
  by (simp add: GetCommitMsg_def toy_defs toyCommitted_def Cmp_def)

lemma toy_commit_neg: "GetCommitMsg toyCommitter 4 (- 1) =
    (Inr 2, toyCommitter\<lparr>Committer_committedValue := Some (- 1), Committer_r := Some 4\<rparr>)"
  by (simp add: GetCommitMsg_def computeCommitment_def toy_defs Cmp_def Let_def
      Group_Exp_def Group_Homomorphism_def Group_Mul_def ExpMod_def toy_ModInverse_2)

lemma toy_commit_6: "GetCommitMsg toyCommitter 4 6 = (Inr 1, toyCommittedB)"
  by (simp add: GetCommitMsg_def computeCommitment_def toy_defs toyCommittedB_def Cmp_def Let_def
      Group_Exp_def Group_Homomorphism_def Group_Mul_def ExpMod_def)

lemma toy_multB:
  "GetCommitmentToMultiplication toyCommittedB 7 5 6 4 = (Inr (14, 7, 14), toyCommittedB)"
proof -
  have i1: "ModInverse 4 15 = Some 4" by code_simp
  have i2: "ModInverse 2 15 = Some 8" by code_simp
  show ?thesis
    by (simp add: GetCommitmentToMultiplication_def computeCommitment_def toy_defs toyCommittedB_def
        Let_def EuclidMod_def EuclidDiv_def Group_Exp_def Group_Homomorphism_def Group_Mul_def
        Group_Inv_def ExpMod_def i1 i2)
qed

subsection \<open>Claims\<close>

text \<open>
  C10. \<^verbatim>\<open>GetDecommitMsg\<close> on a committer that \<^verbatim>\<open>NewCommitter\<close> has just built, before
  any successful \<^verbatim>\<open>GetCommitMsg\<close>, returns the pair (nil, nil): its result has no error
  component, so the missing commitment does not show as an error.
\<close>

theorem GetDecommitMsg_uninitialized:
  "NewCommitter qOneWay y = Inr c \<Longrightarrow> GetDecommitMsg c = (None, None)"
  by (auto simp: NewCommitter_def GetDecommitMsg_def split: if_splits)

theorem GetDecommitMsg_uninitialized_witness:
  "NewCommitter toyQOneWay 2 = Inr toyCommitter \<and> GetDecommitMsg toyCommitter = (None, None)"
proof -
  have g: "gcd (2::int) 15 = 1" by code_simp
  have h: "NewCommitter toyQOneWay 2 = Inr toyCommitter"
    by (simp add: NewCommitter_def toy_defs Group_IsElementInGroup_def g)
  show ?thesis using h GetDecommitMsg_uninitialized [OF h] by simp
qed

text \<open>
  C8. When \<^verbatim>\<open>GetCommitMsg\<close> returns an error, the committer is left exactly as it
  was, so \<^verbatim>\<open>GetDecommitMsg\<close> afterwards returns what it returned before: the pair of
  the last successful \<^verbatim>\<open>GetCommitMsg\<close>, if there was one.
\<close>

theorem GetCommitMsg_failure_atomic:
  assumes "GetCommitMsg c r a = (Inl e, c')"
  shows "c' = c \<and> GetDecommitMsg c' = GetDecommitMsg c \<and>
         (\<forall>c0 r0 a0 cm. GetCommitMsg c0 r0 a0 = (Inr cm, c) \<longrightarrow>
            GetDecommitMsg c' = (Some a0, Some r0))"
proof -
  have eq: "c' = c" using assms by (rule failed_commit_state)
  have "GetDecommitMsg c = (Some a0, Some r0)" if "GetCommitMsg c0 r0 a0 = (Inr cm, c)" for c0 r0 a0 cm
    using successful_commit_state [OF that] by (simp add: GetDecommitMsg_def)
  then show ?thesis using eq by blast
qed

theorem GetCommitMsg_failure_atomic_witness:
  "GetCommitMsg toyCommitter 4 7 = (Inr 2, toyCommitted) \<and>
   GetCommitMsg toyCommitted 4 17 = (Inl RangeError, toyCommitted) \<and>
   GetDecommitMsg toyCommitted = (Some 7, Some 4)"
  using GetCommitMsg_failure_atomic [OF toy_commit_17] toy_commit_7 toy_commit_17 by blast

text \<open>
  C6. With \<open>a < Q\<close>, \<^verbatim>\<open>GetCommitMsg(a)\<close> on the drawn element \<open>r\<close> returns
  \<open>Y ^ a * r ^ Q mod N\<close> and stores \<open>(a, r)\<close> over whatever pair was stored, and
  \<^verbatim>\<open>GetDecommitMsg\<close> then returns \<open>(a, r)\<close>. For a negative \<open>a\<close> and a base \<open>Y\<close> of the
  group, the power \<open>Y ^ a\<close> is the one of the inverse of \<open>Y\<close>: the commitment \<open>cm\<close> is
  the residue with \<open>cm * Y ^ (- a) = r ^ Q\<close> modulo \<open>N\<close>.
\<close>

theorem GetCommitMsg_success:
  assumes ok: "RSABased_ok (Committer_RSABased c)"
    and lt: "a < RSABased_Q (Committer_RSABased c)"
  shows "(0 \<le> a \<longrightarrow>
           GetCommitMsg c r a =
             (Inr ((Committer_Y c ^ nat a * r ^ nat (RSABased_Q (Committer_RSABased c)))
                     mod Group_N (RSABased_Group (Committer_RSABased c))),
              c\<lparr>Committer_committedValue := Some a, Committer_r := Some r\<rparr>)) \<and>
         (a < 0 \<longrightarrow> gcd (Committer_Y c) (Group_N (RSABased_Group (Committer_RSABased c))) = 1 \<longrightarrow>
           (\<exists>cm. GetCommitMsg c r a =
                   (Inr cm, c\<lparr>Committer_committedValue := Some a, Committer_r := Some r\<rparr>) \<and>
                 0 \<le> cm \<and> cm < Group_N (RSABased_Group (Committer_RSABased c)) \<and>
                 (cm * Committer_Y c ^ nat (- a)) mod Group_N (RSABased_Group (Committer_RSABased c))
                   = r ^ nat (RSABased_Q (Committer_RSABased c))
                       mod Group_N (RSABased_Group (Committer_RSABased c)))) \<and>
         (\<forall>cm c'. GetCommitMsg c r a = (Inr cm, c') \<longrightarrow>
            GetDecommitMsg c' = (Some a, Some r))"
proof (intro conjI impI allI)
  assume "0 \<le> a"
  then show "GetCommitMsg c r a =
             (Inr ((Committer_Y c ^ nat a * r ^ nat (RSABased_Q (Committer_RSABased c)))
                     mod Group_N (RSABased_Group (Committer_RSABased c))),
              c\<lparr>Committer_committedValue := Some a, Committer_r := Some r\<rparr>)"
    using lt by (simp add: commit_nonneg [OF ok])
next
  assume "a < 0" and cop: "gcd (Committer_Y c) (Group_N (RSABased_Group (Committer_RSABased c))) = 1"
  from computeCommitment_neg [OF ok this, of r] obtain cm where
    cm: "computeCommitment c r a = (Inr (cm, r), c)"
      "0 \<le> cm" "cm < Group_N (RSABased_Group (Committer_RSABased c))"
      "(cm * Committer_Y c ^ nat (- a)) mod Group_N (RSABased_Group (Committer_RSABased c))
             = r ^ nat (RSABased_Q (Committer_RSABased c))
                 mod Group_N (RSABased_Group (Committer_RSABased c))"
    by blast
  have "GetCommitMsg c r a = (Inr cm, c\<lparr>Committer_committedValue := Some a, Committer_r := Some r\<rparr>)"
    using lt cm(1) by (simp add: GetCommitMsg_def Cmp_def)
  then show "\<exists>cm. GetCommitMsg c r a =
                   (Inr cm, c\<lparr>Committer_committedValue := Some a, Committer_r := Some r\<rparr>) \<and>
                 0 \<le> cm \<and> cm < Group_N (RSABased_Group (Committer_RSABased c)) \<and>
                 (cm * Committer_Y c ^ nat (- a)) mod Group_N (RSABased_Group (Committer_RSABased c))
                   = r ^ nat (RSABased_Q (Committer_RSABased c))
                       mod Group_N (RSABased_Group (Committer_RSABased c))"
    using cm by blast
next
  fix cm c' assume "GetCommitMsg c r a = (Inr cm, c')"
  from successful_commit_state [OF this]
  show "GetDecommitMsg c' = (Some a, Some r)" by (simp add: GetDecommitMsg_def)
qed

theorem GetCommitMsg_success_witness:
  "RSABased_ok (Committer_RSABased toyCommitter) \<and>
   (7::int) < RSABased_Q (Committer_RSABased toyCommitter) \<and>
   GetCommitMsg toyCommitter 4 7 = (Inr 2, toyCommitted) \<and>
   GetDecommitMsg toyCommitted = (Some 7, Some 4) \<and>
   gcd (Committer_Y toyCommitter) (Group_N (RSABased_Group (Committer_RSABased toyCommitter))) = 1 \<and>
   fst (GetCommitMsg toyCommitter 4 (- 1)) = Inr 2 \<and> (2 * 2 ^ 1) mod 15 = (4::int) ^ 17 mod 15"
proof -
  have lt: "(7::int) < RSABased_Q (Committer_RSABased toyCommitter)" by (simp add: toy_defs)
  have lt': "(- 1::int) < RSABased_Q (Committer_RSABased toyCommitter)" by (simp add: toy_defs)
  have g: "gcd (Committer_Y toyCommitter) (Group_N (RSABased_Group (Committer_RSABased toyCommitter))) = 1"
    by (simp add: toy_defs toy_gcd_2)
  have d: "GetDecommitMsg toyCommitted = (Some 7, Some 4)"
    using GetCommitMsg_success [OF toy_ok_committer lt, of 4] toy_commit_7 by blast
  obtain cm where "GetCommitMsg toyCommitter 4 (- 1) =
        (Inr cm, toyCommitter\<lparr>Committer_committedValue := Some (- 1), Committer_r := Some 4\<rparr>)"
     and cm: "(cm * Committer_Y toyCommitter ^ nat (- (- 1))) mod Group_N (RSABased_Group (Committer_RSABased toyCommitter))
             = 4 ^ nat (RSABased_Q (Committer_RSABased toyCommitter))
                 mod Group_N (RSABased_Group (Committer_RSABased toyCommitter))"
    using GetCommitMsg_success [OF toy_ok_committer lt', of 4] g by auto
  then have "cm = 2" using toy_commit_neg by simp
  with cm have "(2 * 2 ^ 1) mod 15 = (4::int) ^ 17 mod 15" by (simp add: toy_defs)
  then show ?thesis using toy_ok_committer lt toy_commit_7 toy_commit_neg d g by simp
qed

text \<open>
  C4. After \<^verbatim>\<open>SetCommitment(cm)\<close>, \<^verbatim>\<open>CheckDecommitment(R, a)\<close> returns true when
  \<open>Y ^ a * R ^ Q mod N\<close> equals \<open>cm\<close> and false otherwise, never an error; an earlier
  stored commitment plays no part. For a negative \<open>a\<close> and a base \<open>Y\<close> of the group the
  recomputed value is the residue \<open>z\<close> with \<open>z * Y ^ (- a) = R ^ Q\<close> modulo \<open>N\<close>.
\<close>

theorem CheckDecommitment_iff:
  assumes ok: "RSABased_ok (Receiver_RSABased rc)"
  shows "(0 \<le> a \<longrightarrow>
           CheckDecommitment (SetCommitment rc cm) R a =
             Inr ((Receiver_Y rc ^ nat a * R ^ nat (RSABased_Q (Receiver_RSABased rc)))
                    mod Group_N (RSABased_Group (Receiver_RSABased rc)) = cm)) \<and>
         (a < 0 \<longrightarrow> gcd (Receiver_Y rc) (Group_N (RSABased_Group (Receiver_RSABased rc))) = 1 \<longrightarrow>
           (\<exists>z. 0 \<le> z \<and> z < Group_N (RSABased_Group (Receiver_RSABased rc)) \<and>
                (z * Receiver_Y rc ^ nat (- a)) mod Group_N (RSABased_Group (Receiver_RSABased rc))
                  = R ^ nat (RSABased_Q (Receiver_RSABased rc))
                      mod Group_N (RSABased_Group (Receiver_RSABased rc)) \<and>
                CheckDecommitment (SetCommitment rc cm) R a = Inr (z = cm)))"
proof (intro conjI impI)
  assume "0 \<le> a"
  then show "CheckDecommitment (SetCommitment rc cm) R a =
             Inr ((Receiver_Y rc ^ nat a * R ^ nat (RSABased_Q (Receiver_RSABased rc)))
                    mod Group_N (RSABased_Group (Receiver_RSABased rc)) = cm)"
    by (rule recompute_nonneg [OF ok])
next
  let ?N = "Group_N (RSABased_Group (Receiver_RSABased rc))"
  let ?Q = "RSABased_Q (Receiver_RSABased rc)"
  let ?Y = "Receiver_Y rc"
  let ?k = "nat (- a)"
  assume neg: "a < 0" and cop: "gcd ?Y ?N = 1"
  have N: "0 < ?N" and Q: "0 \<le> ?Q" using ok by (simp_all add: RSABased_ok_def)
  obtain yi where yi: "ModInverse ?Y ?N = Some yi" "(?Y * yi) mod ?N = 1 mod ?N"
    using ModInverse_correct [OF N cop] by blast
  let ?z = "(yi ^ ?k mod ?N * (R ^ nat ?Q mod ?N)) mod ?N"
  have chk: "CheckDecommitment (SetCommitment rc cm) R a = Inr (?z = cm)"
    using neg yi(1) Q
    by (simp add: CheckDecommitment_def SetCommitment_def Group_Exp_def ExpMod_def
        Group_Mul_def Cmp_def Let_def)
  have "(?z * ?Y ^ ?k) mod ?N = ((yi ^ ?k * ?Y ^ ?k) * R ^ nat ?Q) mod ?N"
    by (simp add: mod_mult_left_eq mod_mult_right_eq mod_mult_eq mult.assoc mult.left_commute mult.commute)
  also have "\<dots> = ((yi ^ ?k * ?Y ^ ?k) mod ?N * R ^ nat ?Q) mod ?N"
    by (simp add: mod_mult_left_eq)
  also have "\<dots> = (1 mod ?N * R ^ nat ?Q) mod ?N"
    using mod_inverse_power [OF yi(2)] by simp
  also have "\<dots> = R ^ nat ?Q mod ?N" by (simp add: mod_mult_left_eq)
  finally have "(?z * ?Y ^ ?k) mod ?N = R ^ nat ?Q mod ?N" .
  moreover have "0 \<le> ?z" "?z < ?N" using N by simp_all
  ultimately show "\<exists>z. 0 \<le> z \<and> z < ?N \<and> (z * ?Y ^ ?k) mod ?N = R ^ nat ?Q mod ?N \<and>
                CheckDecommitment (SetCommitment rc cm) R a = Inr (z = cm)"
    using chk by blast
qed

theorem CheckDecommitment_iff_witness:
  "RSABased_ok (Receiver_RSABased toyReceiver) \<and>
   CheckDecommitment (SetCommitment toyReceiver 2) 4 7 = Inr True \<and>
   CheckDecommitment (SetCommitment toyReceiver 2) 4 8 = Inr False \<and>
   gcd (Receiver_Y toyReceiver) (Group_N (RSABased_Group (Receiver_RSABased toyReceiver))) = 1 \<and>
   CheckDecommitment (SetCommitment toyReceiver 2) 4 (- 1) = Inr True"
proof -
  have g: "gcd (Receiver_Y toyReceiver) (Group_N (RSABased_Group (Receiver_RSABased toyReceiver))) = 1"
    by (simp add: toy_defs toy_gcd_2)
  have c7: "CheckDecommitment (SetCommitment toyReceiver 2) 4 7 = Inr True"
    using CheckDecommitment_iff [OF toy_ok_receiver, of 7 2 4] by (simp add: toy_defs)
  have c8: "CheckDecommitment (SetCommitment toyReceiver 2) 4 8 = Inr False"
    using CheckDecommitment_iff [OF toy_ok_receiver, of 8 2 4] by (simp add: toy_defs)
  have cn: "CheckDecommitment (SetCommitment toyReceiver 2) 4 (- 1) = Inr True"
    by (simp add: CheckDecommitment_def SetCommitment_def toy_defs Cmp_def Let_def
      Group_Exp_def Group_Mul_def ExpMod_def toy_ModInverse_2)
  show ?thesis using toy_ok_receiver g c7 c8 cn by simp
qed

text \<open>
  C3. For \<open>a\<close> in \<open>[0, Q)\<close>: a committer and a receiver on the same homomorphism and
  the same base \<open>Y\<close>; the committer's \<^verbatim>\<open>GetCommitMsg(a)\<close> succeeds with the commitment
  \<open>cm\<close>, the receiver stores \<open>cm\<close>; then \<^verbatim>\<open>GetDecommitMsg\<close> returns a pair \<open>(a', r')\<close> and
  the receiver's \<^verbatim>\<open>CheckDecommitment(r', a')\<close> returns true.
\<close>

theorem commit_decommit_roundtrip:
  assumes ok: "RSABased_ok (Committer_RSABased c)"
    and same: "Receiver_RSABased rc = Committer_RSABased c" "Receiver_Y rc = Committer_Y c"
    and a: "0 \<le> a" "a < RSABased_Q (Committer_RSABased c)"
    and commit: "GetCommitMsg c r a = (Inr cm, c')"
  shows "\<exists>a' r'. GetDecommitMsg c' = (Some a', Some r') \<and>
           CheckDecommitment (SetCommitment rc cm) r' a' = Inr True"
proof -
  have ok': "RSABased_ok (Receiver_RSABased rc)" using ok same by simp
  from commit_nonneg [OF ok a, of r] commit
  have cm: "cm = (Committer_Y c ^ nat a * r ^ nat (RSABased_Q (Committer_RSABased c)))
                     mod Group_N (RSABased_Group (Committer_RSABased c))"
    and d: "GetDecommitMsg c' = (Some a, Some r)" by (auto simp: GetDecommitMsg_def)
  have "CheckDecommitment (SetCommitment rc cm) r a = Inr True"
    using recompute_nonneg [OF ok' a(1), of cm r] cm same by simp
  with d show ?thesis by blast
qed

theorem commit_decommit_roundtrip_witness:
  "RSABased_ok (Committer_RSABased toyCommitter) \<and>
   Receiver_RSABased toyReceiver = Committer_RSABased toyCommitter \<and>
   Receiver_Y toyReceiver = Committer_Y toyCommitter \<and>
   (0::int) \<le> 7 \<and> 7 < RSABased_Q (Committer_RSABased toyCommitter) \<and>
   GetCommitMsg toyCommitter 4 7 = (Inr 2, toyCommitted) \<and>
   GetDecommitMsg toyCommitted = (Some 7, Some 4) \<and>
   CheckDecommitment (SetCommitment toyReceiver 2) 4 7 = Inr True"
proof -
  have s1: "Receiver_RSABased toyReceiver = Committer_RSABased toyCommitter"
    and s2: "Receiver_Y toyReceiver = Committer_Y toyCommitter"
    and lt: "(7::int) < RSABased_Q (Committer_RSABased toyCommitter)"
    by (simp_all add: toy_defs)
  have d: "GetDecommitMsg toyCommitted = (Some 7, Some 4)"
    by (simp add: GetDecommitMsg_def toyCommitted_def)
  have "\<exists>a' r'. GetDecommitMsg toyCommitted = (Some a', Some r') \<and>
           CheckDecommitment (SetCommitment toyReceiver 2) r' a' = Inr True"
    using commit_decommit_roundtrip [OF toy_ok_committer s1 s2 _ lt toy_commit_7] by simp
  then have "CheckDecommitment (SetCommitment toyReceiver 2) 4 7 = Inr True"
    using d by simp
  then show ?thesis using toy_ok_committer s1 s2 lt toy_commit_7 d by simp
qed

text \<open>
  C5, as stated, fails: a negative \<open>a\<close> is below \<open>Q\<close> and passes the only check of
  \<^verbatim>\<open>GetCommitMsg\<close>. On the example committer, \<^verbatim>\<open>GetCommitMsg(-1)\<close> returns the
  commitment 2 and no error.
\<close>

theorem GetCommitMsg_negative_counterexample:
  "NewRSABased toyNewGroup toyRandPrime 4 = Inr toyQOneWay \<and>
   NewCommitter toyQOneWay 2 = Inr toyCommitter \<and>
   (- 1 :: int) < 0 \<and>
   fst (GetCommitMsg toyCommitter 4 (- 1)) = Inr 2"
  using toy_NewRSABased toy_NewCommitter toy_commit_neg by simp

text \<open>
  C5, amended. \<^verbatim>\<open>GetCommitMsg(a)\<close> returns a range error exactly when \<open>a \<ge> Q\<close>. It
  returns a commitment and no error for every \<open>a\<close> with \<open>0 \<le> a < Q\<close>, and also for every
  negative \<open>a\<close> when the base \<open>Y\<close> is coprime with the modulus.
\<close>

theorem GetCommitMsg_range_error:
  "(fst (GetCommitMsg c r a) = Inl RangeError \<longleftrightarrow> RSABased_Q (Committer_RSABased c) \<le> a) \<and>
   (RSABased_ok (Committer_RSABased c) \<longrightarrow> 0 \<le> a \<longrightarrow> a < RSABased_Q (Committer_RSABased c) \<longrightarrow>
      (\<exists>cm. fst (GetCommitMsg c r a) = Inr cm)) \<and>
   (RSABased_ok (Committer_RSABased c) \<longrightarrow> a < 0 \<longrightarrow>
      gcd (Committer_Y c) (Group_N (RSABased_Group (Committer_RSABased c))) = 1 \<longrightarrow>
      (\<exists>cm. fst (GetCommitMsg c r a) = Inr cm))"
proof (intro conjI impI)
  show "fst (GetCommitMsg c r a) = Inl RangeError \<longleftrightarrow> RSABased_Q (Committer_RSABased c) \<le> a"
    by (auto simp: GetCommitMsg_def Cmp_def computeCommitment_def Let_def
        split: option.splits)
next
  assume ok: "RSABased_ok (Committer_RSABased c)" and "0 \<le> a" "a < RSABased_Q (Committer_RSABased c)"
  then show "\<exists>cm. fst (GetCommitMsg c r a) = Inr cm"
    by (simp add: GetCommitMsg_def Cmp_def computeCommitment_nonneg)
next
  assume ok: "RSABased_ok (Committer_RSABased c)" and neg: "a < 0"
    and cop: "gcd (Committer_Y c) (Group_N (RSABased_Group (Committer_RSABased c))) = 1"
  have "a < RSABased_Q (Committer_RSABased c)" using ok neg by (simp add: RSABased_ok_def)
  moreover obtain cm where "computeCommitment c r a = (Inr (cm, r), c)"
    using computeCommitment_neg [OF ok neg cop] by blast
  ultimately show "\<exists>cm. fst (GetCommitMsg c r a) = Inr cm"
    by (simp add: GetCommitMsg_def Cmp_def)
qed

theorem GetCommitMsg_range_error_witness:
  "RSABased_ok (Committer_RSABased toyCommitter) \<and>
   gcd (Committer_Y toyCommitter) (Group_N (RSABased_Group (Committer_RSABased toyCommitter))) = 1 \<and>
   fst (GetCommitMsg toyCommitter 4 17) = Inl RangeError \<and>
   fst (GetCommitMsg toyCommitter 4 18) = Inl RangeError \<and>
   (\<exists>cm. fst (GetCommitMsg toyCommitter 4 7) = Inr cm) \<and>
   (\<exists>cm. fst (GetCommitMsg toyCommitter 4 (- 1)) = Inr cm)"
proof -
  have g: "gcd (Committer_Y toyCommitter) (Group_N (RSABased_Group (Committer_RSABased toyCommitter))) = 1"
    by (simp add: toy_defs toy_gcd_2)
  have q: "RSABased_Q (Committer_RSABased toyCommitter) = 17" by (simp add: toy_defs)
  have e17: "fst (GetCommitMsg toyCommitter 4 17) = Inl RangeError"
    using GetCommitMsg_range_error [of toyCommitter 4 17] q by simp
  have e18: "fst (GetCommitMsg toyCommitter 4 18) = Inl RangeError"
    using GetCommitMsg_range_error [of toyCommitter 4 18] q by simp
  have s7: "\<exists>cm. fst (GetCommitMsg toyCommitter 4 7) = Inr cm"
    using GetCommitMsg_range_error [of toyCommitter 4 7] q toy_ok_committer by simp
  have sn: "\<exists>cm. fst (GetCommitMsg toyCommitter 4 (- 1)) = Inr cm"
    using GetCommitMsg_range_error [of toyCommitter 4 "- 1"] g toy_ok_committer by simp
  show ?thesis using toy_ok_committer g e17 e18 s7 sn by simp
qed

text \<open>
  C7. \<^verbatim>\<open>NewRSABased(bitLen)\<close> asks the prime generator for \<open>bitLen + 1\<close> bits, and the
  generator returns a prime of the length it is asked for. The result is a parameter
  error exactly when the group and the prime \<open>Q\<close> were generated and \<open>Q \<le> N\<close>. On
  success \<open>Q\<close> is a prime of \<open>bitLen + 1\<close> bits, \<open>Q > N\<close>, \<open>Q\<close> is the group's public
  exponent and the homomorphism is \<open>x \<mapsto> x ^ Q mod N\<close>.
\<close>

theorem NewRSABased_spec:
  assumes prime_contract:
    "\<forall>bits q. randPrime bits = Some q \<longrightarrow> is_prime q \<and> BitLen q = bits"
  shows "(NewRSABased newGroup randPrime bitLen = Inl ParameterError \<longleftrightarrow>
           (\<exists>rsa q. newGroup bitLen = Some rsa \<and> randPrime (bitLen + 1) = Some q \<and>
                    q \<le> Group_N rsa)) \<and>
         (\<forall>qw. NewRSABased newGroup randPrime bitLen = Inr qw \<longrightarrow>
            is_prime (RSABased_Q qw) \<and> BitLen (RSABased_Q qw) = bitLen + 1 \<and>
            Group_N (RSABased_Group qw) < RSABased_Q qw \<and>
            Group_E (RSABased_Group qw) = RSABased_Q qw \<and>
            (\<forall>x. RSABased_Homomorphism qw x =
                   Some (x ^ nat (RSABased_Q qw) mod Group_N (RSABased_Group qw))))"
proof (intro conjI allI impI)
  show "NewRSABased newGroup randPrime bitLen = Inl ParameterError \<longleftrightarrow>
           (\<exists>rsa q. newGroup bitLen = Some rsa \<and> randPrime (bitLen + 1) = Some q \<and>
                    q \<le> Group_N rsa)"
    by (auto simp: NewRSABased_def Cmp_def Let_def split: option.splits if_splits)
next
  fix qw assume res: "NewRSABased newGroup randPrime bitLen = Inr qw"
  then obtain rsa q where g: "newGroup bitLen = Some rsa" and p: "randPrime (bitLen + 1) = Some q"
    and gt: "Group_N rsa < q"
    and qw: "qw = \<lparr>RSABased_Group = rsa\<lparr>Group_E := q\<rparr>, RSABased_Q = q,
                   RSABased_Homomorphism = Group_Homomorphism (rsa\<lparr>Group_E := q\<rparr>),
                   RSABased_HomomorphismInv = (\<lambda>y. y)\<rparr>"
    by (auto simp: NewRSABased_def Cmp_def Let_def split: option.splits if_splits)
  have pq: "is_prime q" "BitLen q = bitLen + 1" using prime_contract p by blast+
  then have q0: "0 \<le> q" by (simp add: is_prime_def)
  show "is_prime (RSABased_Q qw)" using pq qw by simp
  show "BitLen (RSABased_Q qw) = bitLen + 1" using pq qw by simp
  show "Group_N (RSABased_Group qw) < RSABased_Q qw" using gt qw by simp
  show "Group_E (RSABased_Group qw) = RSABased_Q qw" using qw by simp
  fix x
  show "RSABased_Homomorphism qw x =
                   Some (x ^ nat (RSABased_Q qw) mod Group_N (RSABased_Group qw))"
    using qw q0 by (simp add: Group_Homomorphism_def Group_Exp_def ExpMod_def)
qed

theorem NewRSABased_spec_witness:
  "toyRandPrime 5 = Some 17 \<and> is_prime 17 \<and> BitLen 17 = 5 \<and>
   NewRSABased toyNewGroup toyRandPrime 4 = Inr toyQOneWay \<and>
   NewRSABased toyNewGroup toyRandPrime 4 \<noteq> Inl ParameterError \<and>
   is_prime (RSABased_Q toyQOneWay) \<and> BitLen (RSABased_Q toyQOneWay) = 4 + 1 \<and>
   Group_N (RSABased_Group toyQOneWay) < RSABased_Q toyQOneWay \<and>
   Group_E (RSABased_Group toyQOneWay) = RSABased_Q toyQOneWay \<and>
   RSABased_Homomorphism toyQOneWay 2 = Some (2 ^ 17 mod 15)"
proof -
  have contract: "\<forall>bits q. toyRandPrime bits = Some q \<longrightarrow> is_prime q \<and> BitLen q = bits"
    by (simp add: toyRandPrime_def toy_prime_17 toy_BitLen_17)
  have ne: "NewRSABased toyNewGroup toyRandPrime 4 \<noteq> Inl ParameterError"
    using toy_NewRSABased by simp
  have "is_prime (RSABased_Q toyQOneWay) \<and> BitLen (RSABased_Q toyQOneWay) = 4 + 1 \<and>
        Group_N (RSABased_Group toyQOneWay) < RSABased_Q toyQOneWay \<and>
        Group_E (RSABased_Group toyQOneWay) = RSABased_Q toyQOneWay \<and>
        (\<forall>x. RSABased_Homomorphism toyQOneWay x =
               Some (x ^ nat (RSABased_Q toyQOneWay) mod Group_N (RSABased_Group toyQOneWay)))"
    using NewRSABased_spec [OF contract, of toyNewGroup 4] toy_NewRSABased by blast
  moreover have "RSABased_Q toyQOneWay = 17" "Group_N (RSABased_Group toyQOneWay) = 15"
    by (simp_all add: toy_defs)
  moreover have "toyRandPrime 5 = Some 17" by (simp add: toyRandPrime_def)
  ultimately show ?thesis using toy_prime_17 toy_BitLen_17 toy_NewRSABased ne by simp
qed

text \<open>
  C9. \<^verbatim>\<open>GetCommitmentToMultiplication\<close> leaves the committer as it was, whatever it
  returns: \<^verbatim>\<open>GetDecommitMsg\<close> afterwards returns what it returned before, the pair of
  the last \<^verbatim>\<open>GetCommitMsg\<close>.
\<close>

theorem GetCommitmentToMultiplication_frame:
  "snd (GetCommitmentToMultiplication c r a b u) = c \<and>
   GetDecommitMsg (snd (GetCommitmentToMultiplication c r a b u)) = GetDecommitMsg c \<and>
   (\<forall>c0 r0 a0 cm. GetCommitMsg c0 r0 a0 = (Inr cm, c) \<longrightarrow>
      GetDecommitMsg (snd (GetCommitmentToMultiplication c r a b u)) = (Some a0, Some r0))"
proof -
  have eq: "snd (GetCommitmentToMultiplication c r a b u) = c"
    by (auto simp: GetCommitmentToMultiplication_def Let_def
        dest: computeCommitment_state split: option.splits prod.splits sum.splits)
  have "GetDecommitMsg c = (Some a0, Some r0)" if "GetCommitMsg c0 r0 a0 = (Inr cm, c)" for c0 r0 a0 cm
    using successful_commit_state [OF that] by (simp add: GetDecommitMsg_def)
  then show ?thesis using eq by simp
qed

theorem GetCommitmentToMultiplication_frame_witness:
  "GetCommitMsg toyCommitter 4 7 = (Inr 2, toyCommitted) \<and>
   snd (GetCommitmentToMultiplication toyCommitted 7 5 6 4) = toyCommitted \<and>
   GetDecommitMsg (snd (GetCommitmentToMultiplication toyCommitted 7 5 6 4)) = (Some 7, Some 4)"
  using GetCommitmentToMultiplication_frame [of toyCommitted 7 5 6 4] toy_commit_7 by blast

text \<open>
  C2. For \<open>a\<close> and \<open>b\<close> in \<open>[0, Q)\<close>, a base \<open>Y\<close> and a blinding factor \<open>u\<close> of the
  group: let \<open>B\<close> be the commitment that \<^verbatim>\<open>GetCommitMsg(b)\<close> returned on the drawn
  element \<open>u\<close>, so \<open>B = Y ^ b * u ^ Q mod N\<close>. Then
  \<^verbatim>\<open>GetCommitmentToMultiplication(a, b, u)\<close>, drawing \<open>o\<close>, returns \<open>(C, o, t)\<close> with
  \<open>C = Y ^ (a * b mod Q) * o ^ Q mod N\<close>, which a receiver holding \<open>C\<close> accepts as an
  opening to \<open>a * b mod Q\<close> with blinding \<open>o\<close>, and \<open>C = B ^ a * t ^ Q mod N\<close>.
\<close>

theorem multiplication_relation:
  assumes ok: "RSABased_ok (Committer_RSABased c0)"
    and Y: "Group_IsElementInGroup (RSABased_Group (Committer_RSABased c0)) (Committer_Y c0)"
    and u: "Group_IsElementInGroup (RSABased_Group (Committer_RSABased c0)) u"
    and a: "0 \<le> a" "a < RSABased_Q (Committer_RSABased c0)"
    and b: "0 \<le> b" "b < RSABased_Q (Committer_RSABased c0)"
    and commitB: "GetCommitMsg c0 u b = (Inr B, c)"
    and rc: "Receiver_RSABased rc = Committer_RSABased c0" "Receiver_Y rc = Committer_Y c0"
  shows "B = (Committer_Y c0 ^ nat b * u ^ nat (RSABased_Q (Committer_RSABased c0)))
               mod Group_N (RSABased_Group (Committer_RSABased c0)) \<and>
         (\<exists>C t. GetCommitmentToMultiplication c oo a b u = (Inr (C, oo, t), c) \<and>
            C = (Committer_Y c0 ^ nat ((a * b) mod RSABased_Q (Committer_RSABased c0))
                   * oo ^ nat (RSABased_Q (Committer_RSABased c0)))
                  mod Group_N (RSABased_Group (Committer_RSABased c0)) \<and>
            CheckDecommitment (SetCommitment rc C) oo
              ((a * b) mod RSABased_Q (Committer_RSABased c0)) = Inr True \<and>
            C = (B ^ nat a * t ^ nat (RSABased_Q (Committer_RSABased c0)))
                  mod Group_N (RSABased_Group (Committer_RSABased c0)))"
proof -
  let ?qw = "Committer_RSABased c0"
  let ?G = "RSABased_Group ?qw"
  let ?N = "Group_N ?G"
  let ?Q = "RSABased_Q ?qw"
  let ?Y = "Committer_Y c0"
  let ?cMod = "(a * b) mod ?Q"
  let ?j = "(a * b) div ?Q"
  have N: "0 < ?N" and Q: "0 < ?Q" and inv: "RSABased_HomomorphismInv ?qw = (\<lambda>y. y)"
    using ok by (simp_all add: RSABased_ok_def)
  have Yc: "gcd ?Y ?N = 1" and uc: "gcd u ?N = 1"
    using Y u by (simp_all add: Group_IsElementInGroup_def)
  have c: "c = c0\<lparr>Committer_committedValue := Some b, Committer_r := Some u\<rparr>"
    using commitB by (rule successful_commit_state)
  have cqw: "Committer_RSABased c = ?qw" and cY: "Committer_Y c = ?Y" using c by simp_all
  have okc: "RSABased_ok (Committer_RSABased c)" using ok cqw by simp
  have B: "B = (?Y ^ nat b * u ^ nat ?Q) mod ?N"
    using commit_nonneg [OF ok b, of u] commitB by simp
  have ab: "0 \<le> a * b" using a(1) b(1) by simp
  have cm0: "0 \<le> ?cMod" using Q by simp
  have j0: "0 \<le> ?j" using ab Q by (simp add: pos_imp_zdiv_nonneg_iff)
  have emod: "EuclidMod (a * b) ?Q = Some ?cMod" using Q by (simp add: EuclidMod_def)
  have "(a * b - ?cMod) div ?Q = ?j"
    by (simp add: minus_mod_eq_mult_div Q [THEN less_imp_neq, symmetric])
  then have ediv: "EuclidDiv (a * b - ?cMod) ?Q = Some ?j" using Q by (simp add: EuclidDiv_def)
  let ?C = "(?Y ^ nat ?cMod * oo ^ nat ?Q) mod ?N"
  have cc: "computeCommitment c oo ?cMod = (Inr (?C, oo), c)"
    using computeCommitment_nonneg [OF okc cm0, of oo] cqw cY by simp
  let ?uToa = "u ^ nat a mod ?N"
  have ua: "Group_Exp ?G u a = Some ?uToa" using a(1) by (simp add: Group_Exp_def ExpMod_nonneg)
  obtain ui where ui: "ModInverse ?uToa ?N = Some ui" "(?uToa * ui) mod ?N = 1 mod ?N"
    using ModInverse_correct [OF N coprime_power_mod [OF uc]] by blast
  let ?yToj = "?Y ^ nat ?j mod ?N"
  have yj: "Group_Exp ?G ?Y ?j = Some ?yToj" using j0 by (simp add: Group_Exp_def ExpMod_nonneg)
  obtain yi where yi: "ModInverse ?yToj ?N = Some yi" "(?yToj * yi) mod ?N = 1 mod ?N"
    using ModInverse_correct [OF N coprime_power_mod [OF Yc]] by blast
  let ?t = "((oo * ui) mod ?N * yi) mod ?N"
  have run: "GetCommitmentToMultiplication c oo a b u = (Inr (?C, oo, ?t), c)"
    unfolding GetCommitmentToMultiplication_def
    by (simp add: cqw cY emod cc ediv ua ui(1) yj yi(1) inv Group_Inv_def Group_Mul_def Let_def)
  have "int (nat a * nat b) = int (nat ?j * nat ?Q + nat ?cMod)"
    using a(1) b(1) j0 cm0 Q by (simp add: algebra_simps)
  then have expo: "nat a * nat b = nat ?j * nat ?Q + nat ?cMod" by (simp only: int_int_eq)
  have rel: "?C = (B ^ nat a * ?t ^ nat ?Q) mod ?N"
    using mult_commitment_identity [OF expo ui(2) yi(2), of oo] by (simp add: B)
  have ok': "RSABased_ok (Receiver_RSABased rc)" using ok rc by simp
  have chk: "CheckDecommitment (SetCommitment rc ?C) oo ?cMod = Inr True"
    using recompute_nonneg [OF ok' cm0, of ?C oo] rc by simp
  show ?thesis using B run rel chk by blast
qed

theorem multiplication_relation_witness:
  "RSABased_ok (Committer_RSABased toyCommitter) \<and>
   Group_IsElementInGroup (RSABased_Group (Committer_RSABased toyCommitter)) (Committer_Y toyCommitter) \<and>
   Group_IsElementInGroup (RSABased_Group (Committer_RSABased toyCommitter)) 4 \<and>
   (0::int) \<le> 5 \<and> 5 < RSABased_Q (Committer_RSABased toyCommitter) \<and>
   (0::int) \<le> 6 \<and> 6 < RSABased_Q (Committer_RSABased toyCommitter) \<and>
   GetCommitMsg toyCommitter 4 6 = (Inr 1, toyCommittedB) \<and>
   Receiver_RSABased toyReceiver = Committer_RSABased toyCommitter \<and>
   Receiver_Y toyReceiver = Committer_Y toyCommitter \<and>
   GetCommitmentToMultiplication toyCommittedB 7 5 6 4 = (Inr (14, 7, 14), toyCommittedB) \<and>
   CheckDecommitment (SetCommitment toyReceiver 14) 7 13 = Inr True \<and>
   (14::int) = (1 ^ 5 * 14 ^ 17) mod 15"
proof -
  have Y: "Group_IsElementInGroup (RSABased_Group (Committer_RSABased toyCommitter)) (Committer_Y toyCommitter)"
    by (simp add: Group_IsElementInGroup_def toy_defs toy_gcd_2)
  have u: "Group_IsElementInGroup (RSABased_Group (Committer_RSABased toyCommitter)) 4"
    by (simp add: Group_IsElementInGroup_def toy_defs toy_gcd_4)
  have a: "(0::int) \<le> 5" "5 < RSABased_Q (Committer_RSABased toyCommitter)"
    and b: "(0::int) \<le> 6" "6 < RSABased_Q (Committer_RSABased toyCommitter)"
    and s1: "Receiver_RSABased toyReceiver = Committer_RSABased toyCommitter"
    and s2: "Receiver_Y toyReceiver = Committer_Y toyCommitter"
    by (simp_all add: toy_defs)
  have q: "RSABased_Q (Committer_RSABased toyCommitter) = 17"
    and n: "Group_N (RSABased_Group (Committer_RSABased toyCommitter)) = 15"
    by (simp_all add: toy_defs)
  from multiplication_relation [OF toy_ok_committer Y u a b toy_commit_6 s1 s2, of 7]
  obtain C t where run: "GetCommitmentToMultiplication toyCommittedB 7 5 6 4 = (Inr (C, 7, t), toyCommittedB)"
    and chk: "CheckDecommitment (SetCommitment toyReceiver C) 7
              ((5 * 6) mod RSABased_Q (Committer_RSABased toyCommitter)) = Inr True"
    and rel: "C = (1 ^ nat 5 * t ^ nat (RSABased_Q (Committer_RSABased toyCommitter)))
                  mod Group_N (RSABased_Group (Committer_RSABased toyCommitter))"
    by blast
  from run toy_multB have C: "C = 14" and t: "t = 14" by simp_all
  have chk': "CheckDecommitment (SetCommitment toyReceiver 14) 7 13 = Inr True"
    using chk by (simp add: C q)
  have rel': "(14::int) = (1 ^ 5 * 14 ^ 17) mod 15"
    using rel by (simp add: C t q n)
  show ?thesis using toy_ok_committer Y u a b toy_commit_6 s1 s2 toy_multB chk' rel' by simp
qed

section \<open>The proof of equality\<close>

subsection \<open>Lemmas\<close>

lemma df_ComputeCommit_Inr:
  assumes "df_ComputeCommit p a r = Inr cm"
  obtains x y where "ExpMod (df_G p) a (QRSpecialRSA_N (df_QRSpecialRSA p)) = Some x"
    and "ExpMod (df_H p) r (QRSpecialRSA_N (df_QRSpecialRSA p)) = Some y"
    and "cm = (x * y) mod QRSpecialRSA_N (df_QRSpecialRSA p)"
  using assms
  by (auto simp: df_ComputeCommit_def QRSpecialRSA_Exp_def QRSpecialRSA_Mul_def
      split: option.splits)

lemma df_ComputeCommit_total:
  assumes ok: "df_commitment_ok p"
  shows "\<exists>cm. df_ComputeCommit p a r = Inr cm"
proof -
  let ?N = "QRSpecialRSA_N (df_QRSpecialRSA p)"
  have N: "0 < ?N" and G: "gcd (df_G p) ?N = 1" and H: "gcd (df_H p) ?N = 1"
    using ok by (simp_all add: df_commitment_ok_def)
  obtain x y where "ExpMod (df_G p) a ?N = Some x" "ExpMod (df_H p) r ?N = Some y"
    using ExpMod_total [OF N G] ExpMod_total [OF N H] by blast
  then show ?thesis by (simp add: df_ComputeCommit_def QRSpecialRSA_Exp_def)
qed

lemma sigma_algebra:
  fixes n :: int
  shows "((R1 * R2) mod n * (((A * B) mod n) ^ c mod n)) mod n
           = (((A ^ c mod n * R1) mod n) * ((B ^ c mod n * R2) mod n)) mod n"
proof -
  have "((R1 * R2) mod n * (((A * B) mod n) ^ c mod n)) mod n
          = ((R1 * R2) mod n * ((A * B) ^ c mod n)) mod n" by (simp only: power_mod)
  also have "\<dots> = ((R1 * R2) * (A * B) ^ c) mod n" by (simp only: mod_mult_eq)
  also have "(R1 * R2) * (A * B) ^ c = (A ^ c * R1) * (B ^ c * R2)"
    by (simp add: power_mult_distrib)
  also have "((A ^ c * R1) * (B ^ c * R2)) mod n
          = ((A ^ c * R1) mod n * ((B ^ c * R2) mod n)) mod n" by (simp only: mod_mult_eq)
  also have "(A ^ c * R1) mod n = (A ^ c mod n * R1) mod n" by (simp only: mod_mult_left_eq)
  also have "(B ^ c * R2) mod n = (B ^ c mod n * R2) mod n" by (simp only: mod_mult_left_eq)
  finally show ?thesis .
qed

lemma df_verify_side:
  assumes ok: "df_commitment_ok p"
    and cm: "df_ComputeCommit p a rr = Inr cm"
    and t: "df_ComputeCommit p r1 r2 = Inr t"
    and ch: "0 \<le> ch"
  shows "\<exists>left right.
           QRSpecialRSA_Exp (df_QRSpecialRSA p) cm ch = Some left \<and>
           df_ComputeCommit p (ch * a + r1) (ch * rr + r2) = Inr right \<and>
           QRSpecialRSA_Mul (df_QRSpecialRSA p) t left = right"
proof -
  let ?N = "QRSpecialRSA_N (df_QRSpecialRSA p)"
  let ?c = "nat ch"
  have N: "0 < ?N" and G: "gcd (df_G p) ?N = 1" and H: "gcd (df_H p) ?N = 1"
    using ok by (simp_all add: df_commitment_ok_def)
  from cm obtain A B where A: "ExpMod (df_G p) a ?N = Some A"
    and B: "ExpMod (df_H p) rr ?N = Some B" and cmv: "cm = (A * B) mod ?N"
    by (rule df_ComputeCommit_Inr)
  from t obtain R1 R2 where R1: "ExpMod (df_G p) r1 ?N = Some R1"
    and R2: "ExpMod (df_H p) r2 ?N = Some R2" and tv: "t = (R1 * R2) mod ?N"
    by (rule df_ComputeCommit_Inr)
  have c: "int ?c = ch" using ch by simp
  have Ac: "ExpMod (df_G p) (ch * a) ?N = Some (A ^ ?c mod ?N)"
    using ExpMod_mult [OF N G A, of ?c] c by simp
  have Bc: "ExpMod (df_H p) (ch * rr) ?N = Some (B ^ ?c mod ?N)"
    using ExpMod_mult [OF N H B, of ?c] c by simp
  obtain Z1 where Z1: "ExpMod (df_G p) (ch * a + r1) ?N = Some Z1"
    using ExpMod_total [OF N G] by blast
  obtain Z2 where Z2: "ExpMod (df_H p) (ch * rr + r2) ?N = Some Z2"
    using ExpMod_total [OF N H] by blast
  have Z1v: "Z1 = (A ^ ?c mod ?N * R1) mod ?N" by (rule ExpMod_add [OF N G Ac R1 Z1])
  have Z2v: "Z2 = (B ^ ?c mod ?N * R2) mod ?N" by (rule ExpMod_add [OF N H Bc R2 Z2])
  have left: "QRSpecialRSA_Exp (df_QRSpecialRSA p) cm ch = Some (cm ^ ?c mod ?N)"
    using ch by (simp add: QRSpecialRSA_Exp_def ExpMod_nonneg)
  have right: "df_ComputeCommit p (ch * a + r1) (ch * rr + r2) = Inr ((Z1 * Z2) mod ?N)"
    using Z1 Z2 by (simp add: df_ComputeCommit_def QRSpecialRSA_Exp_def QRSpecialRSA_Mul_def)
  have "QRSpecialRSA_Mul (df_QRSpecialRSA p) t (cm ^ ?c mod ?N) = (Z1 * Z2) mod ?N"
    unfolding QRSpecialRSA_Mul_def tv cmv Z1v Z2v by (rule sigma_algebra)
  with left right show ?thesis by blast
qed

lemma GetProofRandomData_runs:
  assumes ok1: "df_commitment_ok (df_Committer_commitment (EqualityProver_committer1 p))"
    and ok2: "df_commitment_ok (df_Committer_commitment (EqualityProver_committer2 p))"
  shows "\<exists>r1 r21 r22 t1 t2.
           GetProofRandomData p seed1 seed2 seed3 =
             (Inr (t1, t2), p\<lparr>EqualityProver_r1 := Some r1, EqualityProver_r21 := Some r21,
                               EqualityProver_r22 := Some r22\<rparr>) \<and>
           df_ComputeCommit (df_Committer_commitment (EqualityProver_committer1 p)) r1 r21 = Inr t1 \<and>
           df_ComputeCommit (df_Committer_commitment (EqualityProver_committer2 p)) r1 r22 = Inr t2"
proof -
  let ?c1 = "df_Committer_commitment (EqualityProver_committer1 p)"
  let ?c2 = "df_Committer_commitment (EqualityProver_committer2 p)"
  let ?nLen = "BitLen (QRSpecialRSA_N (df_QRSpecialRSA ?c1))"
  let ?b = "ExpNil 2 (?nLen + EqualityProver_challengeSpaceSize p) * df_T ?c1"
  let ?b' = "ExpNil 2 (df_B ?c1 + 2 * ?nLen + EqualityProver_challengeSpaceSize p)"
  have T: "0 < df_T ?c1" using ok1 by (simp add: df_commitment_ok_def)
  have b: "0 < ?b" using T ExpNil_pos [of "?nLen + EqualityProver_challengeSpaceSize p"]
    by (simp only: zero_less_mult_iff) simp
  have b': "0 < ?b'" by (rule ExpNil_pos)
  let ?r1 = "seed1 mod ?b" and ?r21 = "seed2 mod ?b'" and ?r22 = "seed3 mod ?b'"
  have g1: "GetRandomInt seed1 ?b = Some ?r1" using b by (simp add: GetRandomInt_def)
  have g2: "GetRandomInt seed2 ?b' = Some ?r21" using b' by (simp add: GetRandomInt_def)
  have g3: "GetRandomInt seed3 ?b' = Some ?r22" using b' by (simp add: GetRandomInt_def)
  obtain t1 where t1: "df_ComputeCommit ?c1 ?r1 ?r21 = Inr t1"
    using df_ComputeCommit_total [OF ok1] by blast
  obtain t2 where t2: "df_ComputeCommit ?c2 ?r1 ?r22 = Inr t2"
    using df_ComputeCommit_total [OF ok2] by blast
  have "GetProofRandomData p seed1 seed2 seed3 =
          (Inr (t1, t2), p\<lparr>EqualityProver_r1 := Some ?r1, EqualityProver_r21 := Some ?r21,
                            EqualityProver_r22 := Some ?r22\<rparr>)"
    unfolding GetProofRandomData_def by (simp add: Let_def g1 g2 g3 t1 t2)
  with t1 t2 show ?thesis by blast
qed

subsection \<open>Claims\<close>

text \<open>
  C1. Two committers of package \<^verbatim>\<open>df\<close> hold the same value \<open>a\<close>, with blindings
  \<open>rr1\<close> and \<open>rr2\<close>, on parameters that may differ; the two receivers hold the two
  commitments. Then \<^verbatim>\<open>GetProofRandomData\<close> returns some \<open>(t1, t2)\<close>, and once the
  verifier has received them with \<^verbatim>\<open>SetProofRandomData\<close>, for every challenge of
  \<open>[0, 2 ^ challengeSpaceSize)\<close> set with \<^verbatim>\<open>SetChallenge\<close>, and for the challenge of every
  draw of \<^verbatim>\<open>GetChallenge\<close>, which lies in that interval, \<^verbatim>\<open>GetProofData\<close> returns
  \<open>(s1, s21, s22)\<close> and \<^verbatim>\<open>Verify\<close> on them returns true.
\<close>

theorem equality_proof_completeness:
  assumes ok1: "df_commitment_ok (df_Committer_commitment c1)"
    and ok2: "df_commitment_ok (df_Committer_commitment c2)"
    and hold1: "df_GetDecommitMsg c1 = (Some a, Some rr1)"
    and hold2: "df_GetDecommitMsg c2 = (Some a, Some rr2)"
    and rc1: "df_Receiver_commitment rc1 = df_Committer_commitment c1"
      "df_ComputeCommit (df_Committer_commitment c1) a rr1 = Inr cm1"
      "df_Receiver_Commitment rc1 = Some cm1"
    and rc2: "df_Receiver_commitment rc2 = df_Committer_commitment c2"
      "df_ComputeCommit (df_Committer_commitment c2) a rr2 = Inr cm2"
      "df_Receiver_Commitment rc2 = Some cm2"
    and p: "EqualityProver_committer1 p = c1" "EqualityProver_committer2 p = c2"
    and v: "EqualityVerifier_receiver1 v = rc1" "EqualityVerifier_receiver2 v = rc2"
      "EqualityVerifier_challengeSpaceSize v = k"
  shows "\<exists>t1 t2 p'.
           GetProofRandomData p seed1 seed2 seed3 = (Inr (t1, t2), p') \<and>
           (\<forall>challenge. 0 \<le> challenge \<and> challenge < 2 ^ nat k \<longrightarrow>
              (\<exists>s1 s21 s22.
                 GetProofData p' challenge = Inr (s1, s21, s22) \<and>
                 Verify (SetChallenge (SetProofRandomData v t1 t2) challenge) s1 s21 s22
                   = Inr True)) \<and>
           (\<forall>seed. \<exists>challenge v' s1 s21 s22.
              GetChallenge (SetProofRandomData v t1 t2) seed = (Inr challenge, v') \<and>
              0 \<le> challenge \<and> challenge < 2 ^ nat k \<and>
              GetProofData p' challenge = Inr (s1, s21, s22) \<and>
              Verify v' s1 s21 s22 = Inr True)"
proof -
  let ?P1 = "df_Committer_commitment c1" and ?P2 = "df_Committer_commitment c2"
  from GetProofRandomData_runs [of p seed1 seed2 seed3] ok1 ok2 p
  obtain r1 r21 r22 t1 t2 where
    run: "GetProofRandomData p seed1 seed2 seed3 =
             (Inr (t1, t2), p\<lparr>EqualityProver_r1 := Some r1, EqualityProver_r21 := Some r21,
                               EqualityProver_r22 := Some r22\<rparr>)"
    and t1: "df_ComputeCommit ?P1 r1 r21 = Inr t1"
    and t2: "df_ComputeCommit ?P2 r1 r22 = Inr t2"
    by auto
  let ?p' = "p\<lparr>EqualityProver_r1 := Some r1, EqualityProver_r21 := Some r21,
                 EqualityProver_r22 := Some r22\<rparr>"
  let ?v = "SetProofRandomData v t1 t2"
  have data: "GetProofData ?p' ch = Inr (ch * a + r1, ch * rr1 + r21, ch * rr2 + r22)" for ch
    using hold1 hold2 p by (simp add: GetProofData_def)
  have accept: "Verify (SetChallenge ?v ch) (ch * a + r1) (ch * rr1 + r21) (ch * rr2 + r22) = Inr True"
    if ch: "0 \<le> ch" for ch
  proof -
    from df_verify_side [OF ok1 rc1(2) t1 ch] obtain left1 right1 where
      l1: "QRSpecialRSA_Exp (df_QRSpecialRSA ?P1) cm1 ch = Some left1"
      and r1: "df_ComputeCommit ?P1 (ch * a + r1) (ch * rr1 + r21) = Inr right1"
      and e1: "QRSpecialRSA_Mul (df_QRSpecialRSA ?P1) t1 left1 = right1" by blast
    from df_verify_side [OF ok2 rc2(2) t2 ch] obtain left2 right2 where
      l2: "QRSpecialRSA_Exp (df_QRSpecialRSA ?P2) cm2 ch = Some left2"
      and r2: "df_ComputeCommit ?P2 (ch * a + r1) (ch * rr2 + r22) = Inr right2"
      and e2: "QRSpecialRSA_Mul (df_QRSpecialRSA ?P2) t2 left2 = right2" by blast
    show ?thesis
      unfolding Verify_def
      by (simp add: SetChallenge_def SetProofRandomData_def v rc1 rc2 l1 r1 e1 l2 r2 e2 Cmp_def)
  qed
  have interactive: "\<exists>challenge v' s1 s21 s22.
              GetChallenge ?v seed = (Inr challenge, v') \<and>
              0 \<le> challenge \<and> challenge < 2 ^ nat k \<and>
              GetProofData ?p' challenge = Inr (s1, s21, s22) \<and>
              Verify v' s1 s21 s22 = Inr True" for seed
  proof -
    let ?ch = "seed mod ExpNil 2 k"
    have b: "0 < ExpNil 2 k" by (rule ExpNil_pos)
    have ch: "0 \<le> ?ch" "?ch < 2 ^ nat k" using b by (simp_all add: ExpNil_2)
    have "GetChallenge ?v seed = (Inr ?ch, SetChallenge ?v ?ch)"
      using b by (simp add: GetChallenge_def GetRandomInt_def SetChallenge_def
          SetProofRandomData_def v Let_def)
    with ch data [of ?ch] accept [OF ch(1)] show ?thesis by blast
  qed
  show ?thesis using run data accept interactive by blast
qed

theorem equality_proof_completeness_witness:
  "df_commitment_ok toyParams1 \<and> df_commitment_ok toyParams2 \<and>
   df_GetDecommitMsg toyDfCommitter1 = (Some 3, Some 5) \<and>
   df_GetDecommitMsg toyDfCommitter2 = (Some 3, Some 6) \<and>
   df_ComputeCommit toyParams1 3 5 = Inr 11 \<and>
   df_ComputeCommit toyParams2 3 6 = Inr 1 \<and>
   fst (GetProofRandomData toyProver 100 200 300) = Inr (16, 4) \<and>
   GetProofData (snd (GetProofRandomData toyProver 100 200 300)) 3 = Inr (109, 215, 318) \<and>
   Verify (SetChallenge (SetProofRandomData toyVerifier 16 4) 3) 109 215 318 = Inr True \<and>
   fst (GetChallenge (SetProofRandomData toyVerifier 16 4) 7) = Inr 3"
proof -
  have g: "gcd (4::int) 35 = 1" "gcd (9::int) 35 = 1" "gcd (4::int) 21 = 1" "gcd (16::int) 21 = 1"
    by code_simp+
  have ok1: "df_commitment_ok (df_Committer_commitment toyDfCommitter1)"
    and ok2: "df_commitment_ok (df_Committer_commitment toyDfCommitter2)"
    by (simp_all add: df_commitment_ok_def toyDfCommitter1_def toyDfCommitter2_def
        toyParams1_def toyParams2_def g)
  have h1: "df_GetDecommitMsg toyDfCommitter1 = (Some 3, Some 5)"
    and h2: "df_GetDecommitMsg toyDfCommitter2 = (Some 3, Some 6)"
    by (simp_all add: df_GetDecommitMsg_def toyDfCommitter1_def toyDfCommitter2_def)
  have p1: "df_Receiver_commitment toyDfReceiver1 = df_Committer_commitment toyDfCommitter1"
    and p2: "df_Receiver_commitment toyDfReceiver2 = df_Committer_commitment toyDfCommitter2"
    by (simp_all add: toyDfReceiver1_def toyDfReceiver2_def toyDfCommitter1_def toyDfCommitter2_def)
  have cm1: "df_ComputeCommit (df_Committer_commitment toyDfCommitter1) 3 5 = Inr 11"
    and cm2: "df_ComputeCommit (df_Committer_commitment toyDfCommitter2) 3 6 = Inr 1"
    by code_simp+
  have s1: "df_Receiver_Commitment toyDfReceiver1 = Some 11"
    and s2: "df_Receiver_Commitment toyDfReceiver2 = Some 1"
    by (simp_all add: toyDfReceiver1_def toyDfReceiver2_def)
  have pc: "EqualityProver_committer1 toyProver = toyDfCommitter1"
    "EqualityProver_committer2 toyProver = toyDfCommitter2"
    by (simp_all add: toyProver_def NewEqualityProver_def)
  have vc: "EqualityVerifier_receiver1 toyVerifier = toyDfReceiver1"
    "EqualityVerifier_receiver2 toyVerifier = toyDfReceiver2"
    "EqualityVerifier_challengeSpaceSize toyVerifier = 2"
    by (simp_all add: toyVerifier_def NewEqualityVerifier_def)
  have run: "fst (GetProofRandomData toyProver 100 200 300) = Inr (16, 4)"
    by code_simp
  have data: "GetProofData (snd (GetProofRandomData toyProver 100 200 300)) 3 = Inr (109, 215, 318)"
    by code_simp
  have chall: "fst (GetChallenge (SetProofRandomData toyVerifier 16 4) 7) = Inr 3"
    by code_simp
  from equality_proof_completeness [OF ok1 ok2 h1 h2 p1 cm1 s1 p2 cm2 s2 pc vc, of 100 200 300]
  obtain t1 t2 p' where
    r: "GetProofRandomData toyProver 100 200 300 = (Inr (t1, t2), p')"
    and acc: "\<forall>challenge. 0 \<le> challenge \<and> challenge < 2 ^ nat 2 \<longrightarrow>
              (\<exists>s1 s21 s22.
                 GetProofData p' challenge = Inr (s1, s21, s22) \<and>
                 Verify (SetChallenge (SetProofRandomData toyVerifier t1 t2) challenge) s1 s21 s22
                   = Inr True)"
    by blast
  from r run have t: "t1 = 16" "t2 = 4" by simp_all
  from r have p': "p' = snd (GetProofRandomData toyProver 100 200 300)" by simp
  have "(0::int) \<le> 3 \<and> (3::int) < 2 ^ nat 2" by simp
  with acc obtain s1 s21 s22 where
    d: "GetProofData p' 3 = Inr (s1, s21, s22)"
    and ver: "Verify (SetChallenge (SetProofRandomData toyVerifier t1 t2) 3) s1 s21 s22 = Inr True"
    by blast
  from d data p' have "s1 = 109" "s21 = 215" "s22 = 318" by simp_all
  with ver t have
    "Verify (SetChallenge (SetProofRandomData toyVerifier 16 4) 3) 109 215 318 = Inr True"
    by simp
  moreover have "df_commitment_ok toyParams1" "df_commitment_ok toyParams2"
    using ok1 ok2 by (simp_all add: toyDfCommitter1_def toyDfCommitter2_def)
  moreover have "df_ComputeCommit toyParams1 3 5 = Inr 11" "df_ComputeCommit toyParams2 3 6 = Inr 1"
    using cm1 cm2 by (simp_all add: toyDfCommitter1_def toyDfCommitter2_def)
  ultimately show ?thesis using h1 h2 run data chall by simp
qed

end
